theory Spec2Isabelle
  imports Main "HOL-Library.Multiset"
begin

section \<open>JavaScript values used by the storage layer\<close>

text \<open>
  A JavaScript \<^verbatim>\<open>number\<close> as the server meets it: an integer (an identity issued by a
  counter, a zod-validated integer column, a default), or what \<^verbatim>\<open>parseInt\<close> may give
  besides an integer: \<^verbatim>\<open>NaN\<close> and the two infinities. Integers are unbounded here;
  a double is exact up to \<open>2^53\<close>.
\<close>

datatype jsnum = NaN | Num int | PosInf | NegInf

text \<open>
  \<^verbatim>\<open>a + b\<close> on numbers. The sum of two integers is taken exactly; the one sum of the
  server, \<^verbatim>\<open>offset + limit\<close>, is an index of \<^verbatim>\<open>slice\<close>, which treats every value at
  or beyond the length of the array alike (an array is shorter than \<open>2^32\<close>), so the
  rounding of a sum beyond \<open>2^53\<close> does not show.
\<close>

fun js_add :: "jsnum \<Rightarrow> jsnum \<Rightarrow> jsnum" where
  "js_add (Num a) (Num b) = Num (a + b)"
| "js_add NaN _ = NaN"
| "js_add _ NaN = NaN"
| "js_add PosInf NegInf = NaN"
| "js_add NegInf PosInf = NaN"
| "js_add PosInf _ = PosInf"
| "js_add _ PosInf = PosInf"
| "js_add NegInf _ = NegInf"
| "js_add _ NegInf = NegInf"

text \<open>
  \<^verbatim>\<open>x === n\<close> between a stored integer field and a number: only an integer can be
  equal to it.
\<close>

fun js_eq :: "int \<Rightarrow> jsnum \<Rightarrow> bool" where
  "js_eq x (Num y) = (x = y)"
| "js_eq x _ = False"

text \<open>
  The integer that a number is, when it is one. It is read only where a lookup has found
  a record under the number, which is an integer then.
\<close>

fun key_of :: "jsnum \<Rightarrow> int" where
  "key_of (Num i) = i"
| "key_of _ = 0"

text \<open>
  \<^verbatim>\<open>xs.slice(start, end)\<close>. An index goes through \<^verbatim>\<open>ToIntegerOrInfinity\<close>
  (\<^verbatim>\<open>NaN\<close> is 0); a negative index counts from the end; both indexes are clamped to
  \<open>[0, length]\<close>; an empty range gives the empty array.
\<close>

fun relative_index :: "nat \<Rightarrow> jsnum \<Rightarrow> nat" where
  "relative_index len NaN = 0"
| "relative_index len (Num i) =
     (if i < 0 then nat (max (int len + i) 0) else nat (min i (int len)))"
| "relative_index len PosInf = len"
| "relative_index len NegInf = 0"

definition js_slice :: "'a list \<Rightarrow> jsnum \<Rightarrow> jsnum \<Rightarrow> 'a list" where
  "js_slice xs start fin =
     (let len = length xs;
          k = relative_index len start;
          final = relative_index len fin
      in take (final - k) (drop k xs))"

text \<open>
  What a \<^verbatim>\<open>throw\<close> raises: \<^verbatim>\<open>new Error(message)\<close>, or the \<^verbatim>\<open>TypeError\<close> of the
  engine for a call of something that is not a function.
\<close>

datatype error = Error string | TypeError

text \<open>
  \<^verbatim>\<open>xs.sort(cmp)\<close>. The comparator may throw, and what it throws leaves the sort. Where it
  returns, the sort is stable (ECMAScript 2019): an element is placed before the
  elements it does not compare greater than, so elements that compare equal keep their
  order. An array of fewer than two elements is sorted without a call of the comparator;
  in a longer one every element takes part in a comparison.
\<close>

fun insert_by :: "('a \<Rightarrow> 'a \<Rightarrow> error + int) \<Rightarrow> 'a \<Rightarrow> 'a list \<Rightarrow> error + 'a list" where
  "insert_by cmp x [] = Inr [x]"
| "insert_by cmp x (y # ys) =
     (case cmp x y of
        Inl e \<Rightarrow> Inl e
      | Inr c \<Rightarrow>
          if c \<le> 0 then Inr (x # y # ys)
          else (case insert_by cmp x ys of Inl e \<Rightarrow> Inl e | Inr r \<Rightarrow> Inr (y # r)))"

fun js_sort :: "('a \<Rightarrow> 'a \<Rightarrow> error + int) \<Rightarrow> 'a list \<Rightarrow> error + 'a list" where
  "js_sort cmp [] = Inr []"
| "js_sort cmp (x # xs) =
     (case js_sort cmp xs of Inl e \<Rightarrow> Inl e | Inr ys \<Rightarrow> insert_by cmp x ys)"

text \<open>
  The value of a timestamp field: a \<^verbatim>\<open>Date\<close> (with its time in milliseconds; the
  schema's validation lets only valid dates in), or a value that is not a \<^verbatim>\<open>Date\<close>
  (given by its JSON text), which an update can store: the body of a \<^verbatim>\<open>PUT\<close> is
  JSON and is spread over the record as it comes. \<^verbatim>\<open>v.getTime()\<close> returns the time of
  a \<^verbatim>\<open>Date\<close> and throws a \<^verbatim>\<open>TypeError\<close> for any other value.
\<close>

datatype timestamp = Date int | NotDate string

fun getTime :: "timestamp \<Rightarrow> error + int" where
  "getTime (Date t) = Inr t"
| "getTime (NotDate v) = Inl TypeError"

subsection \<open>\<^verbatim>\<open>Map<number, T>\<close>\<close>

text \<open>
  A JavaScript \<^verbatim>\<open>Map\<close> iterates in insertion order, so it is an association list:
  \<^verbatim>\<open>set\<close> replaces the value of a present key where it stands and appends a new key at
  the end, \<^verbatim>\<open>delete\<close> removes the key and tells whether it was there, \<^verbatim>\<open>get\<close> of a
  key that is not there (\<^verbatim>\<open>NaN\<close> and the infinities among them: every key is an
  integer) is \<^verbatim>\<open>undefined\<close>.
\<close>

type_synonym 'a jsmap = "(int \<times> 'a) list"

fun map_get :: "'a jsmap \<Rightarrow> jsnum \<Rightarrow> 'a option" where
  "map_get m (Num k) = map_of m k"
| "map_get m _ = None"

primrec map_set :: "'a jsmap \<Rightarrow> int \<Rightarrow> 'a \<Rightarrow> 'a jsmap" where
  "map_set [] k v = [(k, v)]"
| "map_set (p # ps) k v = (if fst p = k then (k, v) # ps else p # map_set ps k v)"

fun map_delete :: "'a jsmap \<Rightarrow> jsnum \<Rightarrow> bool \<times> 'a jsmap" where
  "map_delete m (Num k) = (map_of m k \<noteq> None, filter (\<lambda>p. fst p \<noteq> k) m)"
| "map_delete m _ = (False, m)"

definition map_values :: "'a jsmap \<Rightarrow> 'a list" where
  "map_values m = map snd m"

section \<open>The schema (shared/schema.ts)\<close>

text \<open>
  Each table gives a select type (with \<^verbatim>\<open>id\<close>) and an insert type (without). A nullable
  column is an \<open>option\<close>; a timestamp column holds a \<open>timestamp\<close> (a \<^verbatim>\<open>Date\<close> in the
  declared types and after the schema's \<^verbatim>\<open>parse\<close>; the records allow the other
  values too, since the store keeps what it is given).
\<close>

record user =
  user_id :: int
  user_uid :: string
  user_username :: string
  user_email :: string
  user_displayName :: string
  user_bio :: "string option"
  user_photoURL :: "string option"
  user_location :: "string option"
  user_website :: "string option"

record insert_user =
  iu_uid :: string
  iu_username :: string
  iu_email :: string
  iu_displayName :: string
  iu_bio :: "string option"
  iu_photoURL :: "string option"
  iu_location :: "string option"
  iu_website :: "string option"

record blog =
  blog_id :: int
  blog_userId :: int
  blog_title :: string
  blog_content :: string
  blog_coverImage :: "string option"
  blog_category :: string
  blog_tags :: "string list option"
  blog_publishedAt :: timestamp

record insert_blog =
  ib_userId :: int
  ib_title :: string
  ib_content :: string
  ib_coverImage :: "string option"
  ib_category :: string
  ib_tags :: "string list option"
  ib_publishedAt :: timestamp

record like =
  like_id :: int
  like_userId :: int
  like_blogId :: int

record insert_like =
  il_userId :: int
  il_blogId :: int

record follower =
  follower_id :: int
  follower_followerId :: int
  follower_followingId :: int

record insert_follower =
  if_followerId :: int
  if_followingId :: int

record comment =
  comment_id :: int
  comment_userId :: int
  comment_blogId :: int
  comment_content :: string
  comment_createdAt :: timestamp
  comment_parentId :: "int option"

record insert_comment =
  ic_userId :: int
  ic_blogId :: int
  ic_content :: string
  ic_createdAt :: timestamp
  ic_parentId :: "int option"

text \<open>
  \<^verbatim>\<open>Partial<T>\<close>: every field may be absent (\<open>None\<close>) or present with a value of the
  field's type. The routes pass the JSON body of a \<^verbatim>\<open>PUT\<close> as it comes; a timestamp
  field of such a body is never a \<^verbatim>\<open>Date\<close>.
\<close>

record partial_user =
  pu_id :: "int option"
  pu_uid :: "string option"
  pu_username :: "string option"
  pu_email :: "string option"
  pu_displayName :: "string option"
  pu_bio :: "string option option"
  pu_photoURL :: "string option option"
  pu_location :: "string option option"
  pu_website :: "string option option"

record partial_blog =
  pb_id :: "int option"
  pb_userId :: "int option"
  pb_title :: "string option"
  pb_content :: "string option"
  pb_coverImage :: "string option option"
  pb_category :: "string option"
  pb_tags :: "string list option option"
  pb_publishedAt :: "timestamp option"

record partial_comment =
  pc_id :: "int option"
  pc_userId :: "int option"
  pc_blogId :: "int option"
  pc_content :: "string option"
  pc_createdAt :: "timestamp option"
  pc_parentId :: "int option option"

text \<open>
  A field of \<^verbatim>\<open>{ ...old, ...partial }\<close>: the partial's value where the field is present,
  the old value otherwise.
\<close>

fun spread :: "'a \<Rightarrow> 'a option \<Rightarrow> 'a" where
  "spread old None = old"
| "spread old (Some v) = v"

section \<open>The in-memory store (server/storage.ts)\<close>

record MemStorage =
  users :: "user jsmap"
  blogs :: "blog jsmap"
  likes :: "like jsmap"
  followers :: "follower jsmap"
  comments :: "comment jsmap"
  userId :: int
  blogId :: int
  likeId :: int
  followerId :: int
  commentId :: int

text \<open>The constructor: five empty maps, every counter at 1.\<close>

definition MemStorage_new :: MemStorage where
  "MemStorage_new =
     \<lparr>users = [], blogs = [], likes = [], followers = [], comments = [],
      userId = 1, blogId = 1, likeId = 1, followerId = 1, commentId = 1\<rparr>"

subsection \<open>User operations\<close>

definition getUser :: "MemStorage \<Rightarrow> jsnum \<Rightarrow> user option" where
  "getUser st k = map_get (users st) k"

definition getUserByUid :: "MemStorage \<Rightarrow> string \<Rightarrow> user option" where
  "getUserByUid st uid = find (\<lambda>u. user_uid u = uid) (map_values (users st))"

definition getUserByUsername :: "MemStorage \<Rightarrow> string \<Rightarrow> user option" where
  "getUserByUsername st username =
     find (\<lambda>u. user_username u = username) (map_values (users st))"

text \<open>\<^verbatim>\<open>{ ...user, id }\<close>\<close>

definition user_with_id :: "insert_user \<Rightarrow> int \<Rightarrow> user" where
  "user_with_id u k =
     \<lparr>user_id = k, user_uid = iu_uid u, user_username = iu_username u,
      user_email = iu_email u, user_displayName = iu_displayName u, user_bio = iu_bio u,
      user_photoURL = iu_photoURL u, user_location = iu_location u,
      user_website = iu_website u\<rparr>"

definition createUser :: "MemStorage \<Rightarrow> insert_user \<Rightarrow> user \<times> MemStorage" where
  "createUser st u =
     (let k = userId st;
          newUser = user_with_id u k
      in (newUser, st\<lparr>userId := k + 1, users := map_set (users st) k newUser\<rparr>))"

text \<open>\<^verbatim>\<open>{ ...user, ...userData }\<close>\<close>

definition merge_user :: "user \<Rightarrow> partial_user \<Rightarrow> user" where
  "merge_user u p =
     \<lparr>user_id = spread (user_id u) (pu_id p),
      user_uid = spread (user_uid u) (pu_uid p),
      user_username = spread (user_username u) (pu_username p),
      user_email = spread (user_email u) (pu_email p),
      user_displayName = spread (user_displayName u) (pu_displayName p),
      user_bio = spread (user_bio u) (pu_bio p),
      user_photoURL = spread (user_photoURL u) (pu_photoURL p),
      user_location = spread (user_location u) (pu_location p),
      user_website = spread (user_website u) (pu_website p)\<rparr>"

text \<open>
  The key stays a number in the signature; \<^verbatim>\<open>this.users.set(id, ...)\<close> is only reached
  when \<^verbatim>\<open>get(id)\<close> found a record, so \<^verbatim>\<open>id\<close> is an integer key there. The partial
  record is taken at its declared type \<^verbatim>\<open>Partial<User>\<close>.
\<close>

definition updateUser :: "MemStorage \<Rightarrow> jsnum \<Rightarrow> partial_user \<Rightarrow> error + user \<times> MemStorage" where
  "updateUser st k userData =
     (case map_get (users st) k of
        None \<Rightarrow> Inl (Error ''User not found'')
      | Some u \<Rightarrow>
          (let updatedUser = merge_user u userData
           in Inr (updatedUser, st\<lparr>users := map_set (users st) (key_of k) updatedUser\<rparr>)))"

subsection \<open>Blog operations\<close>

definition getBlog :: "MemStorage \<Rightarrow> jsnum \<Rightarrow> blog option" where
  "getBlog st k = map_get (blogs st) k"

text \<open>
  The comparator \<^verbatim>\<open>(a, b) => b.publishedAt.getTime() - a.publishedAt.getTime()\<close>: the
  left operand is evaluated first.
\<close>

definition by_publishedAt :: "blog \<Rightarrow> blog \<Rightarrow> error + int" where
  "by_publishedAt a b =
     (case getTime (blog_publishedAt b) of
        Inl e \<Rightarrow> Inl e
      | Inr tb \<Rightarrow>
          (case getTime (blog_publishedAt a) of Inl e \<Rightarrow> Inl e | Inr ta \<Rightarrow> Inr (tb - ta)))"

text \<open>
  \<^verbatim>\<open>getBlogs(limit = 10, offset = 0)\<close>: an argument that is left out (\<open>None\<close>) takes its
  default. What the sort throws leaves the function.
\<close>

definition getBlogs :: "MemStorage \<Rightarrow> jsnum option \<Rightarrow> jsnum option \<Rightarrow> error + blog list" where
  "getBlogs st limit_arg offset_arg =
     (let limit = (case limit_arg of None \<Rightarrow> Num 10 | Some l \<Rightarrow> l);
          offset = (case offset_arg of None \<Rightarrow> Num 0 | Some off \<Rightarrow> off)
      in case js_sort by_publishedAt (map_values (blogs st)) of
           Inl e \<Rightarrow> Inl e
         | Inr sorted_blogs \<Rightarrow> Inr (js_slice sorted_blogs offset (js_add offset limit)))"

definition getBlogsByUser :: "MemStorage \<Rightarrow> jsnum \<Rightarrow> error + blog list" where
  "getBlogsByUser st uid =
     js_sort by_publishedAt (filter (\<lambda>b. js_eq (blog_userId b) uid) (map_values (blogs st)))"

definition getBlogsByCategory :: "MemStorage \<Rightarrow> string \<Rightarrow> error + blog list" where
  "getBlogsByCategory st category =
     js_sort by_publishedAt (filter (\<lambda>b. blog_category b = category) (map_values (blogs st)))"

definition blog_with_id :: "insert_blog \<Rightarrow> int \<Rightarrow> blog" where
  "blog_with_id b k =
     \<lparr>blog_id = k, blog_userId = ib_userId b, blog_title = ib_title b,
      blog_content = ib_content b, blog_coverImage = ib_coverImage b,
      blog_category = ib_category b, blog_tags = ib_tags b,
      blog_publishedAt = ib_publishedAt b\<rparr>"

definition createBlog :: "MemStorage \<Rightarrow> insert_blog \<Rightarrow> blog \<times> MemStorage" where
  "createBlog st b =
     (let k = blogId st;
          newBlog = blog_with_id b k
      in (newBlog, st\<lparr>blogId := k + 1, blogs := map_set (blogs st) k newBlog\<rparr>))"

definition merge_blog :: "blog \<Rightarrow> partial_blog \<Rightarrow> blog" where
  "merge_blog b p =
     \<lparr>blog_id = spread (blog_id b) (pb_id p),
      blog_userId = spread (blog_userId b) (pb_userId p),
      blog_title = spread (blog_title b) (pb_title p),
      blog_content = spread (blog_content b) (pb_content p),
      blog_coverImage = spread (blog_coverImage b) (pb_coverImage p),
      blog_category = spread (blog_category b) (pb_category p),
      blog_tags = spread (blog_tags b) (pb_tags p),
      blog_publishedAt = spread (blog_publishedAt b) (pb_publishedAt p)\<rparr>"

definition updateBlog :: "MemStorage \<Rightarrow> jsnum \<Rightarrow> partial_blog \<Rightarrow> error + blog \<times> MemStorage" where
  "updateBlog st k blogData =
     (case map_get (blogs st) k of
        None \<Rightarrow> Inl (Error ''Blog not found'')
      | Some b \<Rightarrow>
          (let updatedBlog = merge_blog b blogData
           in Inr (updatedBlog, st\<lparr>blogs := map_set (blogs st) (key_of k) updatedBlog\<rparr>)))"

definition deleteBlog :: "MemStorage \<Rightarrow> jsnum \<Rightarrow> bool \<times> MemStorage" where
  "deleteBlog st k =
     (let (existed, m) = map_delete (blogs st) k in (existed, st\<lparr>blogs := m\<rparr>))"

subsection \<open>Like operations\<close>

definition getLike :: "MemStorage \<Rightarrow> jsnum \<Rightarrow> jsnum \<Rightarrow> like option" where
  "getLike st uid bid =
     find (\<lambda>l. js_eq (like_userId l) uid \<and> js_eq (like_blogId l) bid) (map_values (likes st))"

definition getLikesByBlog :: "MemStorage \<Rightarrow> jsnum \<Rightarrow> like list" where
  "getLikesByBlog st bid = filter (\<lambda>l. js_eq (like_blogId l) bid) (map_values (likes st))"

definition getLikesByUser :: "MemStorage \<Rightarrow> jsnum \<Rightarrow> like list" where
  "getLikesByUser st uid = filter (\<lambda>l. js_eq (like_userId l) uid) (map_values (likes st))"

definition like_with_id :: "insert_like \<Rightarrow> int \<Rightarrow> like" where
  "like_with_id l k = \<lparr>like_id = k, like_userId = il_userId l, like_blogId = il_blogId l\<rparr>"

definition createLike :: "MemStorage \<Rightarrow> insert_like \<Rightarrow> like \<times> MemStorage" where
  "createLike st l =
     (let k = likeId st;
          newLike = like_with_id l k
      in (newLike, st\<lparr>likeId := k + 1, likes := map_set (likes st) k newLike\<rparr>))"

definition deleteLike :: "MemStorage \<Rightarrow> jsnum \<Rightarrow> bool \<times> MemStorage" where
  "deleteLike st k =
     (let (existed, m) = map_delete (likes st) k in (existed, st\<lparr>likes := m\<rparr>))"

subsection \<open>Follower operations\<close>

definition getFollower :: "MemStorage \<Rightarrow> jsnum \<Rightarrow> jsnum \<Rightarrow> follower option" where
  "getFollower st fid gid =
     find (\<lambda>f. js_eq (follower_followerId f) fid \<and> js_eq (follower_followingId f) gid)
       (map_values (followers st))"

definition getFollowers :: "MemStorage \<Rightarrow> jsnum \<Rightarrow> follower list" where
  "getFollowers st uid =
     filter (\<lambda>f. js_eq (follower_followingId f) uid) (map_values (followers st))"

definition getFollowing :: "MemStorage \<Rightarrow> jsnum \<Rightarrow> follower list" where
  "getFollowing st uid =
     filter (\<lambda>f. js_eq (follower_followerId f) uid) (map_values (followers st))"

definition follower_with_id :: "insert_follower \<Rightarrow> int \<Rightarrow> follower" where
  "follower_with_id f k =
     \<lparr>follower_id = k, follower_followerId = if_followerId f,
      follower_followingId = if_followingId f\<rparr>"

definition createFollower :: "MemStorage \<Rightarrow> insert_follower \<Rightarrow> follower \<times> MemStorage" where
  "createFollower st f =
     (let k = followerId st;
          newFollower = follower_with_id f k
      in (newFollower,
          st\<lparr>followerId := k + 1, followers := map_set (followers st) k newFollower\<rparr>))"

definition deleteFollower :: "MemStorage \<Rightarrow> jsnum \<Rightarrow> bool \<times> MemStorage" where
  "deleteFollower st k =
     (let (existed, m) = map_delete (followers st) k in (existed, st\<lparr>followers := m\<rparr>))"

subsection \<open>Comment operations\<close>

definition getComment :: "MemStorage \<Rightarrow> jsnum \<Rightarrow> comment option" where
  "getComment st k = map_get (comments st) k"

definition by_createdAt :: "comment \<Rightarrow> comment \<Rightarrow> error + int" where
  "by_createdAt a b =
     (case getTime (comment_createdAt b) of
        Inl e \<Rightarrow> Inl e
      | Inr tb \<Rightarrow>
          (case getTime (comment_createdAt a) of Inl e \<Rightarrow> Inl e | Inr ta \<Rightarrow> Inr (tb - ta)))"

definition getCommentsByBlog :: "MemStorage \<Rightarrow> jsnum \<Rightarrow> error + comment list" where
  "getCommentsByBlog st bid =
     js_sort by_createdAt
       (filter (\<lambda>c. js_eq (comment_blogId c) bid) (map_values (comments st)))"

definition getCommentsByUser :: "MemStorage \<Rightarrow> jsnum \<Rightarrow> error + comment list" where
  "getCommentsByUser st uid =
     js_sort by_createdAt
       (filter (\<lambda>c. js_eq (comment_userId c) uid) (map_values (comments st)))"

definition comment_with_id :: "insert_comment \<Rightarrow> int \<Rightarrow> comment" where
  "comment_with_id c k =
     \<lparr>comment_id = k, comment_userId = ic_userId c, comment_blogId = ic_blogId c,
      comment_content = ic_content c, comment_createdAt = ic_createdAt c,
      comment_parentId = ic_parentId c\<rparr>"

definition createComment :: "MemStorage \<Rightarrow> insert_comment \<Rightarrow> comment \<times> MemStorage" where
  "createComment st c =
     (let k = commentId st;
          newComment = comment_with_id c k
      in (newComment,
          st\<lparr>commentId := k + 1, comments := map_set (comments st) k newComment\<rparr>))"

definition merge_comment :: "comment \<Rightarrow> partial_comment \<Rightarrow> comment" where
  "merge_comment c p =
     \<lparr>comment_id = spread (comment_id c) (pc_id p),
      comment_userId = spread (comment_userId c) (pc_userId p),
      comment_blogId = spread (comment_blogId c) (pc_blogId p),
      comment_content = spread (comment_content c) (pc_content p),
      comment_createdAt = spread (comment_createdAt c) (pc_createdAt p),
      comment_parentId = spread (comment_parentId c) (pc_parentId p)\<rparr>"

definition updateComment ::
  "MemStorage \<Rightarrow> jsnum \<Rightarrow> partial_comment \<Rightarrow> error + comment \<times> MemStorage" where
  "updateComment st k commentData =
     (case map_get (comments st) k of
        None \<Rightarrow> Inl (Error ''Comment not found'')
      | Some c \<Rightarrow>
          (let updatedComment = merge_comment c commentData
           in Inr (updatedComment,
                   st\<lparr>comments := map_set (comments st) (key_of k) updatedComment\<rparr>)))"

definition deleteComment :: "MemStorage \<Rightarrow> jsnum \<Rightarrow> bool \<times> MemStorage" where
  "deleteComment st k =
     (let (existed, m) = map_delete (comments st) k in (existed, st\<lparr>comments := m\<rparr>))"

section \<open>The routes (registerRoutes)\<close>

subsection \<open>\<^verbatim>\<open>parseInt\<close>\<close>

text \<open>
  The routes read every identity and both query parameters through \<^verbatim>\<open>parseInt\<close>. It
  is a built-in of the engine (which characters it skips as white space and how it
  rounds a long digit string are the engine's), so a handler takes its outcome the way
  it takes the outcome of the schema's \<^verbatim>\<open>parse\<close>: \<^verbatim>\<open>NaN\<close> for a text that does not
  start with a number (\<^verbatim>\<open>abc\<close>, the empty text), otherwise an integer (\<^verbatim>\<open>-1\<close> gives
  \<open>-1\<close>, \<^verbatim>\<open>25px\<close> gives \<open>25\<close>) or, for a digit string beyond the range of a double, an
  infinity. Every value of \<open>jsnum\<close> is allowed as outcome.
\<close>

subsection \<open>Requests and responses\<close>

text \<open>
  The outcome of \<^verbatim>\<open>schema.parse(req.body)\<close>: the typed insert record, or a thrown
  \<^verbatim>\<open>ZodError\<close>. The zod schemas come from a library, so a handler takes the outcome.
\<close>

datatype 'a parsed = ZodError | Parsed 'a

datatype thrown = Zod | Other error

datatype body =
    Message string
  | ValidationError
  | Success
  | UserJson user
  | BlogJson blog
  | BlogsJson "blog list"
  | LikeJson like
  | FollowerJson follower
  | CommentJson comment

type_synonym response = "nat \<times> body"

definition handleError :: "thrown \<Rightarrow> response" where
  "handleError err =
     (case err of
        Zod \<Rightarrow> (400, ValidationError)
      | Other e \<Rightarrow> (500, Message ''Internal server error''))"

text \<open>
  A query parameter of \<^verbatim>\<open>GET /api/blogs\<close> as the handler reads it: falsy (absent, or
  the empty string), or truthy, with the number that \<^verbatim>\<open>parseInt\<close> gives for it.
\<close>

datatype query_param = Falsy | Truthy jsnum

record query =
  q_limit :: query_param
  q_offset :: query_param

text \<open>\<^verbatim>\<open>req.query.p ? parseInt(req.query.p) : d\<close>\<close>

definition query_number :: "query_param \<Rightarrow> int \<Rightarrow> jsnum" where
  "query_number p d = (case p of Falsy \<Rightarrow> Num d | Truthy n \<Rightarrow> n)"

subsection \<open>Handlers\<close>

text \<open>
  Each handler with a route parameter takes \<open>parsed_id\<close>, the value of
  \<^verbatim>\<open>parseInt(req.params.id)\<close>. What is thrown inside \<^verbatim>\<open>try\<close> goes to
  \<^verbatim>\<open>handleError\<close>.
\<close>

definition post_users :: "MemStorage \<Rightarrow> insert_user parsed \<Rightarrow> response \<times> MemStorage" where
  "post_users st req_body =
     (case req_body of
        ZodError \<Rightarrow> (handleError Zod, st)
      | Parsed userData \<Rightarrow>
          (case getUserByUsername st (iu_username userData) of
             Some existingUser \<Rightarrow> ((409, Message ''Username already exists''), st)
           | None \<Rightarrow>
               (let (u, st') = createUser st userData in ((201, UserJson u), st'))))"

definition put_users :: "MemStorage \<Rightarrow> jsnum \<Rightarrow> partial_user \<Rightarrow> response \<times> MemStorage" where
  "put_users st parsed_id userData =
     (case updateUser st parsed_id userData of
        Inl e \<Rightarrow> (handleError (Other e), st)
      | Inr (u, st') \<Rightarrow> ((200, UserJson u), st'))"

definition get_blogs :: "MemStorage \<Rightarrow> query \<Rightarrow> response" where
  "get_blogs st q =
     (let limit = query_number (q_limit q) 10;
          offset = query_number (q_offset q) 0
      in case getBlogs st (Some limit) (Some offset) of
           Inl e \<Rightarrow> handleError (Other e)
         | Inr listed \<Rightarrow> (200, BlogsJson listed))"

definition post_blogs :: "MemStorage \<Rightarrow> insert_blog parsed \<Rightarrow> response \<times> MemStorage" where
  "post_blogs st req_body =
     (case req_body of
        ZodError \<Rightarrow> (handleError Zod, st)
      | Parsed blogData \<Rightarrow>
          (let (b, st') = createBlog st blogData in ((201, BlogJson b), st')))"

definition put_blogs :: "MemStorage \<Rightarrow> jsnum \<Rightarrow> partial_blog \<Rightarrow> response \<times> MemStorage" where
  "put_blogs st parsed_id blogData =
     (case updateBlog st parsed_id blogData of
        Inl e \<Rightarrow> (handleError (Other e), st)
      | Inr (b, st') \<Rightarrow> ((200, BlogJson b), st'))"

definition delete_blogs :: "MemStorage \<Rightarrow> jsnum \<Rightarrow> response \<times> MemStorage" where
  "delete_blogs st parsed_id =
     (let (success, st') = deleteBlog st parsed_id
      in if \<not> success then ((404, Message ''Blog not found''), st')
         else ((200, Success), st'))"

definition post_likes :: "MemStorage \<Rightarrow> insert_like parsed \<Rightarrow> response \<times> MemStorage" where
  "post_likes st req_body =
     (case req_body of
        ZodError \<Rightarrow> (handleError Zod, st)
      | Parsed likeData \<Rightarrow>
          (case getLike st (Num (il_userId likeData)) (Num (il_blogId likeData)) of
             Some existingLike \<Rightarrow> ((409, Message ''Like already exists''), st)
           | None \<Rightarrow>
               (let (l, st') = createLike st likeData in ((201, LikeJson l), st'))))"

definition delete_likes :: "MemStorage \<Rightarrow> jsnum \<Rightarrow> response \<times> MemStorage" where
  "delete_likes st parsed_id =
     (let (success, st') = deleteLike st parsed_id
      in if \<not> success then ((404, Message ''Like not found''), st')
         else ((200, Success), st'))"

definition post_followers ::
  "MemStorage \<Rightarrow> insert_follower parsed \<Rightarrow> response \<times> MemStorage" where
  "post_followers st req_body =
     (case req_body of
        ZodError \<Rightarrow> (handleError Zod, st)
      | Parsed followerData \<Rightarrow>
          (case getFollower st (Num (if_followerId followerData))
                  (Num (if_followingId followerData)) of
             Some existingFollower \<Rightarrow> ((409, Message ''Already following this user''), st)
           | None \<Rightarrow>
               (let (f, st') = createFollower st followerData
                in ((201, FollowerJson f), st'))))"

definition delete_followers :: "MemStorage \<Rightarrow> jsnum \<Rightarrow> response \<times> MemStorage" where
  "delete_followers st parsed_id =
     (let (success, st') = deleteFollower st parsed_id
      in if \<not> success then ((404, Message ''Follower relationship not found''), st')
         else ((200, Success), st'))"

definition post_comments :: "MemStorage \<Rightarrow> insert_comment parsed \<Rightarrow> response \<times> MemStorage" where
  "post_comments st req_body =
     (case req_body of
        ZodError \<Rightarrow> (handleError Zod, st)
      | Parsed commentData \<Rightarrow>
          (let (c, st') = createComment st commentData in ((201, CommentJson c), st')))"

definition put_comments ::
  "MemStorage \<Rightarrow> jsnum \<Rightarrow> partial_comment \<Rightarrow> response \<times> MemStorage" where
  "put_comments st parsed_id commentData =
     (case updateComment st parsed_id commentData of
        Inl e \<Rightarrow> (handleError (Other e), st)
      | Inr (c, st') \<Rightarrow> ((200, CommentJson c), st'))"

definition delete_comments :: "MemStorage \<Rightarrow> jsnum \<Rightarrow> response \<times> MemStorage" where
  "delete_comments st parsed_id =
     (let (success, st') = deleteComment st parsed_id
      in if \<not> success then ((404, Message ''Comment not found''), st')
         else ((200, Success), st'))"

section \<open>Sequences of operations\<close>

text \<open>
  The mutating operations of \<^verbatim>\<open>IStorage\<close> as data, so that a property can be stated for
  every sequence of calls on the store. A call that throws leaves the store as it was.
\<close>

datatype op =
    CreateUser insert_user
  | UpdateUser jsnum partial_user
  | CreateBlog insert_blog
  | UpdateBlog jsnum partial_blog
  | DeleteBlog jsnum
  | CreateLike insert_like
  | DeleteLike jsnum
  | CreateFollower insert_follower
  | DeleteFollower jsnum
  | CreateComment insert_comment
  | UpdateComment jsnum partial_comment
  | DeleteComment jsnum

fun exec :: "MemStorage \<Rightarrow> op \<Rightarrow> MemStorage" where
  "exec st (CreateUser u) = snd (createUser st u)"
| "exec st (UpdateUser k p) = (case updateUser st k p of Inl e \<Rightarrow> st | Inr r \<Rightarrow> snd r)"
| "exec st (CreateBlog b) = snd (createBlog st b)"
| "exec st (UpdateBlog k p) = (case updateBlog st k p of Inl e \<Rightarrow> st | Inr r \<Rightarrow> snd r)"
| "exec st (DeleteBlog k) = snd (deleteBlog st k)"
| "exec st (CreateLike l) = snd (createLike st l)"
| "exec st (DeleteLike k) = snd (deleteLike st k)"
| "exec st (CreateFollower f) = snd (createFollower st f)"
| "exec st (DeleteFollower k) = snd (deleteFollower st k)"
| "exec st (CreateComment c) = snd (createComment st c)"
| "exec st (UpdateComment k p) = (case updateComment st k p of Inl e \<Rightarrow> st | Inr r \<Rightarrow> snd r)"
| "exec st (DeleteComment k) = snd (deleteComment st k)"

fun exec_all :: "MemStorage \<Rightarrow> op list \<Rightarrow> MemStorage" where
  "exec_all st [] = st"
| "exec_all st (x # xs) = exec_all (exec st x) xs"

text \<open>The entity types, and the identity an operation hands out (if it is an insert).\<close>

datatype kind = KUser | KBlog | KLike | KFollower | KComment

fun assigned :: "MemStorage \<Rightarrow> op \<Rightarrow> (kind \<times> int) option" where
  "assigned st (CreateUser u) = Some (KUser, user_id (fst (createUser st u)))"
| "assigned st (CreateBlog b) = Some (KBlog, blog_id (fst (createBlog st b)))"
| "assigned st (CreateLike l) = Some (KLike, like_id (fst (createLike st l)))"
| "assigned st (CreateFollower f) = Some (KFollower, follower_id (fst (createFollower st f)))"
| "assigned st (CreateComment c) = Some (KComment, comment_id (fst (createComment st c)))"
| "assigned st _ = None"

text \<open>The identities handed out for one entity type along a run, in order.\<close>

fun ids_assigned :: "kind \<Rightarrow> MemStorage \<Rightarrow> op list \<Rightarrow> int list" where
  "ids_assigned kd st [] = []"
| "ids_assigned kd st (x # xs) =
     (case assigned st x of
        None \<Rightarrow> ids_assigned kd (exec st x) xs
      | Some (kd', i) \<Rightarrow>
          if kd' = kd then i # ids_assigned kd (exec st x) xs
          else ids_assigned kd (exec st x) xs)"

fun creates :: "kind \<Rightarrow> op \<Rightarrow> bool" where
  "creates kd (CreateUser u) = (kd = KUser)"
| "creates kd (CreateBlog b) = (kd = KBlog)"
| "creates kd (CreateLike l) = (kd = KLike)"
| "creates kd (CreateFollower f) = (kd = KFollower)"
| "creates kd (CreateComment c) = (kd = KComment)"
| "creates kd _ = False"

text \<open>The counter of an entity type.\<close>

fun counter :: "kind \<Rightarrow> MemStorage \<Rightarrow> int" where
  "counter KUser st = userId st"
| "counter KBlog st = blogId st"
| "counter KLike st = likeId st"
| "counter KFollower st = followerId st"
| "counter KComment st = commentId st"

text \<open>The keys of an entity type's map.\<close>

fun map_keys :: "kind \<Rightarrow> MemStorage \<Rightarrow> int list" where
  "map_keys KUser st = map fst (users st)"
| "map_keys KBlog st = map fst (blogs st)"
| "map_keys KLike st = map fst (likes st)"
| "map_keys KFollower st = map fst (followers st)"
| "map_keys KComment st = map fst (comments st)"

text \<open>
  The state-changing routes as data (the remaining routes only read), and the store after
  a sequence of requests.
\<close>

datatype request =
    POST_users "insert_user parsed"
  | PUT_users jsnum partial_user
  | GET_blogs query
  | POST_blogs "insert_blog parsed"
  | PUT_blogs jsnum partial_blog
  | DELETE_blogs jsnum
  | POST_likes "insert_like parsed"
  | DELETE_likes jsnum
  | POST_followers "insert_follower parsed"
  | DELETE_followers jsnum
  | POST_comments "insert_comment parsed"
  | PUT_comments jsnum partial_comment
  | DELETE_comments jsnum

fun serve :: "MemStorage \<Rightarrow> request \<Rightarrow> response \<times> MemStorage" where
  "serve st (POST_users b) = post_users st b"
| "serve st (PUT_users i p) = put_users st i p"
| "serve st (GET_blogs q) = (get_blogs st q, st)"
| "serve st (POST_blogs b) = post_blogs st b"
| "serve st (PUT_blogs i p) = put_blogs st i p"
| "serve st (DELETE_blogs i) = delete_blogs st i"
| "serve st (POST_likes b) = post_likes st b"
| "serve st (DELETE_likes i) = delete_likes st i"
| "serve st (POST_followers b) = post_followers st b"
| "serve st (DELETE_followers i) = delete_followers st i"
| "serve st (POST_comments b) = post_comments st b"
| "serve st (PUT_comments i p) = put_comments st i p"
| "serve st (DELETE_comments i) = delete_comments st i"

fun serve_all :: "MemStorage \<Rightarrow> request list \<Rightarrow> MemStorage" where
  "serve_all st [] = st"
| "serve_all st (r # rs) = serve_all (snd (serve st r)) rs"

section \<open>Notions used to state the properties\<close>

text \<open>A stored record with its identity taken away again: the insert record it came from.\<close>

definition user_without_id :: "user \<Rightarrow> insert_user" where
  "user_without_id u =
     \<lparr>iu_uid = user_uid u, iu_username = user_username u, iu_email = user_email u,
      iu_displayName = user_displayName u, iu_bio = user_bio u,
      iu_photoURL = user_photoURL u, iu_location = user_location u,
      iu_website = user_website u\<rparr>"

definition blog_without_id :: "blog \<Rightarrow> insert_blog" where
  "blog_without_id b =
     \<lparr>ib_userId = blog_userId b, ib_title = blog_title b, ib_content = blog_content b,
      ib_coverImage = blog_coverImage b, ib_category = blog_category b,
      ib_tags = blog_tags b, ib_publishedAt = blog_publishedAt b\<rparr>"

definition like_without_id :: "like \<Rightarrow> insert_like" where
  "like_without_id l = \<lparr>il_userId = like_userId l, il_blogId = like_blogId l\<rparr>"

definition follower_without_id :: "follower \<Rightarrow> insert_follower" where
  "follower_without_id f =
     \<lparr>if_followerId = follower_followerId f, if_followingId = follower_followingId f\<rparr>"

definition comment_without_id :: "comment \<Rightarrow> insert_comment" where
  "comment_without_id c =
     \<lparr>ic_userId = comment_userId c, ic_blogId = comment_blogId c,
      ic_content = comment_content c, ic_createdAt = comment_createdAt c,
      ic_parentId = comment_parentId c\<rparr>"

text \<open>
  What every store built by the operations satisfies: in each map the keys are distinct
  and below the counter. Likes and follows have no update operation, so their records
  also carry their key as identity.
\<close>

definition keys_wf :: "kind \<Rightarrow> MemStorage \<Rightarrow> bool" where
  "keys_wf kd st =
     (distinct (map_keys kd st) \<and> list_all (\<lambda>k. k < counter kd st) (map_keys kd st))"

definition store_inv :: "MemStorage \<Rightarrow> bool" where
  "store_inv st =
     (keys_wf KUser st \<and> keys_wf KBlog st \<and> keys_wf KLike st \<and> keys_wf KFollower st \<and>
      keys_wf KComment st \<and>
      list_all (\<lambda>p. like_id (snd p) = fst p) (likes st) \<and>
      list_all (\<lambda>p. follower_id (snd p) = fst p) (followers st))"

text \<open>The map key of every record is the record's own identity field.\<close>

definition user_keys_are_ids :: "MemStorage \<Rightarrow> bool" where
  "user_keys_are_ids st = list_all (\<lambda>p. user_id (snd p) = fst p) (users st)"

definition blog_keys_are_ids :: "MemStorage \<Rightarrow> bool" where
  "blog_keys_are_ids st = list_all (\<lambda>p. blog_id (snd p) = fst p) (blogs st)"

definition comment_keys_are_ids :: "MemStorage \<Rightarrow> bool" where
  "comment_keys_are_ids st = list_all (\<lambda>p. comment_id (snd p) = fst p) (comments st)"

text \<open>
  The (user, post) pairs of the stored likes and the (follower, followee) pairs of the
  stored follows, in store order; a pair occurs twice when it has two records.
\<close>

definition like_pairs :: "MemStorage \<Rightarrow> (int \<times> int) list" where
  "like_pairs st = map (\<lambda>l. (like_userId l, like_blogId l)) (map_values (likes st))"

definition follower_pairs :: "MemStorage \<Rightarrow> (int \<times> int) list" where
  "follower_pairs st =
     map (\<lambda>f. (follower_followerId f, follower_followingId f)) (map_values (followers st))"

text \<open>
  A post that carries a \<^verbatim>\<open>Date\<close> as publication timestamp, and the time of that date
  (0 stands in for a post that carries none; it is read only for posts that carry one).
\<close>

definition has_date :: "blog \<Rightarrow> bool" where
  "has_date b = (case blog_publishedAt b of Date t \<Rightarrow> True | NotDate v \<Rightarrow> False)"

definition published_time :: "blog \<Rightarrow> int" where
  "published_time b = (case blog_publishedAt b of Date t \<Rightarrow> t | NotDate v \<Rightarrow> 0)"



text \<open>Sample records for the concrete scenarios.\<close>

definition demo_user :: "string \<Rightarrow> string \<Rightarrow> string \<Rightarrow> insert_user" where
  "demo_user uid name email =
     \<lparr>iu_uid = uid, iu_username = name, iu_email = email, iu_displayName = name,
      iu_bio = None, iu_photoURL = None, iu_location = None, iu_website = None\<rparr>"

definition demo_blog :: "int \<Rightarrow> string \<Rightarrow> int \<Rightarrow> insert_blog" where
  "demo_blog author title published =
     \<lparr>ib_userId = author, ib_title = title, ib_content = ''text'', ib_coverImage = None,
      ib_category = ''Tech'', ib_tags = None, ib_publishedAt = Date published\<rparr>"

definition demo_comment :: "int \<Rightarrow> int \<Rightarrow> string \<Rightarrow> insert_comment" where
  "demo_comment author post content =
     \<lparr>ic_userId = author, ic_blogId = post, ic_content = content, ic_createdAt = Date 0,
      ic_parentId = None\<rparr>"

text \<open>The partial update with no field present, for each type.\<close>

definition no_user_change :: partial_user where
  "no_user_change =
     \<lparr>pu_id = None, pu_uid = None, pu_username = None, pu_email = None,
      pu_displayName = None, pu_bio = None, pu_photoURL = None, pu_location = None,
      pu_website = None\<rparr>"

definition no_blog_change :: partial_blog where
  "no_blog_change =
     \<lparr>pb_id = None, pb_userId = None, pb_title = None, pb_content = None,
      pb_coverImage = None, pb_category = None, pb_tags = None, pb_publishedAt = None\<rparr>"

definition no_comment_change :: partial_comment where
  "no_comment_change =
     \<lparr>pc_id = None, pc_userId = None, pc_blogId = None, pc_content = None,
      pc_createdAt = None, pc_parentId = None\<rparr>"

text \<open>
  What the merge of a partial update has to do with one field: take the partial's value
  where it is present, keep the old one where it is absent.
\<close>

definition replaced_or_kept :: "'a \<Rightarrow> 'a option \<Rightarrow> 'a \<Rightarrow> bool" where
  "replaced_or_kept old partial_field new =
     (case partial_field of None \<Rightarrow> new = old | Some v \<Rightarrow> new = v)"

text \<open>The same for every field of a record, for each type with an update operation.\<close>

definition user_merged :: "user \<Rightarrow> partial_user \<Rightarrow> user \<Rightarrow> bool" where
  "user_merged u p m =
     (replaced_or_kept (user_id u) (pu_id p) (user_id m) \<and>
      replaced_or_kept (user_uid u) (pu_uid p) (user_uid m) \<and>
      replaced_or_kept (user_username u) (pu_username p) (user_username m) \<and>
      replaced_or_kept (user_email u) (pu_email p) (user_email m) \<and>
      replaced_or_kept (user_displayName u) (pu_displayName p) (user_displayName m) \<and>
      replaced_or_kept (user_bio u) (pu_bio p) (user_bio m) \<and>
      replaced_or_kept (user_photoURL u) (pu_photoURL p) (user_photoURL m) \<and>
      replaced_or_kept (user_location u) (pu_location p) (user_location m) \<and>
      replaced_or_kept (user_website u) (pu_website p) (user_website m))"

definition blog_merged :: "blog \<Rightarrow> partial_blog \<Rightarrow> blog \<Rightarrow> bool" where
  "blog_merged b p m =
     (replaced_or_kept (blog_id b) (pb_id p) (blog_id m) \<and>
      replaced_or_kept (blog_userId b) (pb_userId p) (blog_userId m) \<and>
      replaced_or_kept (blog_title b) (pb_title p) (blog_title m) \<and>
      replaced_or_kept (blog_content b) (pb_content p) (blog_content m) \<and>
      replaced_or_kept (blog_coverImage b) (pb_coverImage p) (blog_coverImage m) \<and>
      replaced_or_kept (blog_category b) (pb_category p) (blog_category m) \<and>
      replaced_or_kept (blog_tags b) (pb_tags p) (blog_tags m) \<and>
      replaced_or_kept (blog_publishedAt b) (pb_publishedAt p) (blog_publishedAt m))"

definition comment_merged :: "comment \<Rightarrow> partial_comment \<Rightarrow> comment \<Rightarrow> bool" where
  "comment_merged c p m =
     (replaced_or_kept (comment_id c) (pc_id p) (comment_id m) \<and>
      replaced_or_kept (comment_userId c) (pc_userId p) (comment_userId m) \<and>
      replaced_or_kept (comment_blogId c) (pc_blogId p) (comment_blogId m) \<and>
      replaced_or_kept (comment_content c) (pc_content p) (comment_content m) \<and>
      replaced_or_kept (comment_createdAt c) (pc_createdAt p) (comment_createdAt m) \<and>
      replaced_or_kept (comment_parentId c) (pc_parentId p) (comment_parentId m))"

text \<open>A store with one user, one post, one comment, one like and one follow.\<close>

definition demo_ops :: "op list" where
  "demo_ops =
     [CreateUser (demo_user ''u-1'' ''alice'' ''alice@example.org''),
      CreateBlog (demo_blog 1 ''first'' 100),
      CreateComment (demo_comment 1 1 ''nice''),
      CreateLike \<lparr>il_userId = 1, il_blogId = 1\<rparr>,
      CreateFollower \<lparr>if_followerId = 1, if_followingId = 2\<rparr>]"

definition demo_store :: MemStorage where
  "demo_store = exec_all MemStorage_new demo_ops"

text \<open>A store with two posts published at the same instant.\<close>

definition tie_store :: MemStorage where
  "tie_store =
     exec_all MemStorage_new [CreateBlog (demo_blog 1 ''a'' 5), CreateBlog (demo_blog 2 ''b'' 5)]"

text \<open>The mutating call on the store that a request leads to, if it leads to one.\<close>

fun storage_call :: "MemStorage \<Rightarrow> request \<Rightarrow> op option" where
  "storage_call st (POST_users (Parsed u)) =
     (if getUserByUsername st (iu_username u) = None then Some (CreateUser u) else None)"
| "storage_call st (PUT_users i p) = Some (UpdateUser i p)"
| "storage_call st (POST_blogs (Parsed b)) = Some (CreateBlog b)"
| "storage_call st (PUT_blogs i p) = Some (UpdateBlog i p)"
| "storage_call st (DELETE_blogs i) = Some (DeleteBlog i)"
| "storage_call st (POST_likes (Parsed l)) =
     (if getLike st (Num (il_userId l)) (Num (il_blogId l)) = None then Some (CreateLike l)
      else None)"
| "storage_call st (DELETE_likes i) = Some (DeleteLike i)"
| "storage_call st (POST_followers (Parsed f)) =
     (if getFollower st (Num (if_followerId f)) (Num (if_followingId f)) = None
      then Some (CreateFollower f) else None)"
| "storage_call st (DELETE_followers i) = Some (DeleteFollower i)"
| "storage_call st (POST_comments (Parsed c)) = Some (CreateComment c)"
| "storage_call st (PUT_comments i p) = Some (UpdateComment i p)"
| "storage_call st (DELETE_comments i) = Some (DeleteComment i)"
| "storage_call st _ = None"

text \<open>The store after one like has been posted.\<close>

definition liked_store :: MemStorage where
  "liked_store = serve_all MemStorage_new [POST_likes (Parsed \<lparr>il_userId = 1, il_blogId = 1\<rparr>)]"

text \<open>
  What every store built through the routes satisfies in addition: no (user, post) pair
  has two likes and no (follower, followee) pair has two follows.
\<close>

definition api_inv :: "MemStorage \<Rightarrow> bool" where
  "api_inv st = (store_inv st \<and> distinct (like_pairs st) \<and> distinct (follower_pairs st))"


section \<open>Facts about the map, the sort and the slice\<close>

text \<open>
  An index at or beyond the length, or at or below its negative, is clamped to the same
  place whatever its size: the exact value of a large sum does not matter to the slice.
\<close>

lemma relative_index_beyond:
  "int len \<le> e \<Longrightarrow> relative_index len (Num e) = len"
  "e \<le> - int len \<Longrightarrow> relative_index len (Num e) = 0"
  by auto

lemma map_of_map_set: "map_of (map_set m k v) = (map_of m)(k \<mapsto> v)"
  by (induction m) (auto simp: fun_eq_iff)

lemma map_get_map_set_same: "map_get (map_set m k v) (Num k) = Some v"
  by (simp add: map_of_map_set)

lemma map_get_map_set_other: "j \<noteq> Num k \<Longrightarrow> map_get (map_set m k v) j = map_get m j"
  by (cases j) (simp_all add: map_of_map_set)

lemma keys_map_set_present: "map_of m k = Some w \<Longrightarrow> map fst (map_set m k v) = map fst m"
  by (induction m) (auto split: if_splits)

lemma map_set_fresh: "k \<notin> fst ` set m \<Longrightarrow> map_set m k v = m @ [(k, v)]"
  by (induction m) auto

lemma map_get_Some_Num: "map_get m k = Some v \<Longrightarrow> k = Num (key_of k)"
  by (cases k) simp_all

lemma replaced_or_kept_spread: "replaced_or_kept old pf (spread old pf)"
  by (cases pf) (simp_all add: replaced_or_kept_def)

lemma user_merged_merge_user: "user_merged u p (merge_user u p)"
  by (simp add: user_merged_def merge_user_def replaced_or_kept_spread)

lemma blog_merged_merge_blog: "blog_merged b p (merge_blog b p)"
  by (simp add: blog_merged_def merge_blog_def replaced_or_kept_spread)

lemma comment_merged_merge_comment: "comment_merged c p (merge_comment c p)"
  by (simp add: comment_merged_def merge_comment_def replaced_or_kept_spread)

lemma updateUser_absent:
  "getUser st k = None \<Longrightarrow> updateUser st k p = Inl (Error ''User not found'')"
  by (simp add: getUser_def updateUser_def)

lemma updateUser_present:
  assumes "getUser st k = Some u"
  shows "\<exists>st'. updateUser st k p = Inr (merge_user u p, st')
           \<and> getUser st' k = Some (merge_user u p)
           \<and> (\<forall>j. j \<noteq> k \<longrightarrow> getUser st' j = getUser st j)
           \<and> map fst (users st') = map fst (users st)
           \<and> st' = st\<lparr>users := users st'\<rparr>"
proof -
  from assms have k: "k = Num (key_of k)" and g: "map_get (users st) k = Some u"
    by (auto simp: getUser_def dest: map_get_Some_Num)
  let ?st' = "st\<lparr>users := map_set (users st) (key_of k) (merge_user u p)\<rparr>"
  have 1: "updateUser st k p = Inr (merge_user u p, ?st')"
    using g by (simp add: updateUser_def Let_def)
  have 2: "getUser ?st' k = Some (merge_user u p)"
    using k map_get_map_set_same [of "users st" "key_of k"] by (simp add: getUser_def)
  have 3: "\<forall>j. j \<noteq> k \<longrightarrow> getUser ?st' j = getUser st j"
    using k map_get_map_set_other [of _ "key_of k" "users st"] by (simp add: getUser_def)
  have 4: "map fst (users ?st') = map fst (users st)"
    using g k keys_map_set_present [of "users st" "key_of k" u]
    by (cases k) simp_all
  show ?thesis using 1 2 3 4 by (intro exI [of _ ?st']) simp
qed

lemma updateBlog_absent:
  "getBlog st k = None \<Longrightarrow> updateBlog st k p = Inl (Error ''Blog not found'')"
  by (simp add: getBlog_def updateBlog_def)

lemma updateBlog_present:
  assumes "getBlog st k = Some b"
  shows "\<exists>st'. updateBlog st k p = Inr (merge_blog b p, st')
           \<and> getBlog st' k = Some (merge_blog b p)
           \<and> (\<forall>j. j \<noteq> k \<longrightarrow> getBlog st' j = getBlog st j)
           \<and> map fst (blogs st') = map fst (blogs st)
           \<and> st' = st\<lparr>blogs := blogs st'\<rparr>"
proof -
  from assms have k: "k = Num (key_of k)" and g: "map_get (blogs st) k = Some b"
    by (auto simp: getBlog_def dest: map_get_Some_Num)
  let ?st' = "st\<lparr>blogs := map_set (blogs st) (key_of k) (merge_blog b p)\<rparr>"
  have 1: "updateBlog st k p = Inr (merge_blog b p, ?st')"
    using g by (simp add: updateBlog_def Let_def)
  have 2: "getBlog ?st' k = Some (merge_blog b p)"
    using k map_get_map_set_same [of "blogs st" "key_of k"] by (simp add: getBlog_def)
  have 3: "\<forall>j. j \<noteq> k \<longrightarrow> getBlog ?st' j = getBlog st j"
    using k map_get_map_set_other [of _ "key_of k" "blogs st"] by (simp add: getBlog_def)
  have 4: "map fst (blogs ?st') = map fst (blogs st)"
    using g k keys_map_set_present [of "blogs st" "key_of k" b]
    by (cases k) simp_all
  show ?thesis using 1 2 3 4 by (intro exI [of _ ?st']) simp
qed

lemma updateComment_absent:
  "getComment st k = None \<Longrightarrow> updateComment st k p = Inl (Error ''Comment not found'')"
  by (simp add: getComment_def updateComment_def)

lemma updateComment_present:
  assumes "getComment st k = Some c"
  shows "\<exists>st'. updateComment st k p = Inr (merge_comment c p, st')
           \<and> getComment st' k = Some (merge_comment c p)
           \<and> (\<forall>j. j \<noteq> k \<longrightarrow> getComment st' j = getComment st j)
           \<and> map fst (comments st') = map fst (comments st)
           \<and> st' = st\<lparr>comments := comments st'\<rparr>"
proof -
  from assms have k: "k = Num (key_of k)" and g: "map_get (comments st) k = Some c"
    by (auto simp: getComment_def dest: map_get_Some_Num)
  let ?st' = "st\<lparr>comments := map_set (comments st) (key_of k) (merge_comment c p)\<rparr>"
  have 1: "updateComment st k p = Inr (merge_comment c p, ?st')"
    using g by (simp add: updateComment_def Let_def)
  have 2: "getComment ?st' k = Some (merge_comment c p)"
    using k map_get_map_set_same [of "comments st" "key_of k"]
    by (simp add: getComment_def)
  have 3: "\<forall>j. j \<noteq> k \<longrightarrow> getComment ?st' j = getComment st j"
    using k map_get_map_set_other [of _ "key_of k" "comments st"]
    by (simp add: getComment_def)
  have 4: "map fst (comments ?st') = map fst (comments st)"
    using g k keys_map_set_present [of "comments st" "key_of k" c]
    by (cases k) simp_all
  show ?thesis using 1 2 3 4 by (intro exI [of _ ?st']) simp
qed

section \<open>Update\<close>

text \<open>
  C4. For User, Post and Comment: an update on an identity that is not in the store fails
  with the not-found error of its type; an update on a present identity gives back the
  record in which every field present in the partial update carries the partial's value
  and every absent field its old value, and that merged record is what the store holds
  under the identity afterwards, every other entry and every other part of the store
  being as before.
\<close>

theorem update_merges_partial:
  "(getUser st k = None \<longrightarrow> updateUser st k pu = Inl (Error ''User not found'')) \<and>
   (\<forall>u. getUser st k = Some u \<longrightarrow>
      (\<exists>m st'. updateUser st k pu = Inr (m, st') \<and> user_merged u pu m \<and>
         getUser st' k = Some m \<and> (\<forall>j. j \<noteq> k \<longrightarrow> getUser st' j = getUser st j) \<and>
         map fst (users st') = map fst (users st) \<and> st' = st\<lparr>users := users st'\<rparr>)) \<and>
   (getBlog st k = None \<longrightarrow> updateBlog st k pb = Inl (Error ''Blog not found'')) \<and>
   (\<forall>b. getBlog st k = Some b \<longrightarrow>
      (\<exists>m st'. updateBlog st k pb = Inr (m, st') \<and> blog_merged b pb m \<and>
         getBlog st' k = Some m \<and> (\<forall>j. j \<noteq> k \<longrightarrow> getBlog st' j = getBlog st j) \<and>
         map fst (blogs st') = map fst (blogs st) \<and> st' = st\<lparr>blogs := blogs st'\<rparr>)) \<and>
   (getComment st k = None \<longrightarrow> updateComment st k pc = Inl (Error ''Comment not found'')) \<and>
   (\<forall>c. getComment st k = Some c \<longrightarrow>
      (\<exists>m st'. updateComment st k pc = Inr (m, st') \<and> comment_merged c pc m \<and>
         getComment st' k = Some m \<and>
         (\<forall>j. j \<noteq> k \<longrightarrow> getComment st' j = getComment st j) \<and>
         map fst (comments st') = map fst (comments st) \<and>
         st' = st\<lparr>comments := comments st'\<rparr>))"
proof (intro conjI allI impI)
  show "updateUser st k pu = Inl (Error ''User not found'')" if "getUser st k = None"
    using that by (rule updateUser_absent)
  show "updateBlog st k pb = Inl (Error ''Blog not found'')" if "getBlog st k = None"
    using that by (rule updateBlog_absent)
  show "updateComment st k pc = Inl (Error ''Comment not found'')" if "getComment st k = None"
    using that by (rule updateComment_absent)
next
  fix u assume "getUser st k = Some u"
  from updateUser_present [OF this, of pu] user_merged_merge_user [of u pu]
  show "\<exists>m st'. updateUser st k pu = Inr (m, st') \<and> user_merged u pu m \<and>
         getUser st' k = Some m \<and> (\<forall>j. j \<noteq> k \<longrightarrow> getUser st' j = getUser st j) \<and>
         map fst (users st') = map fst (users st) \<and> st' = st\<lparr>users := users st'\<rparr>"
    by blast
next
  fix b assume "getBlog st k = Some b"
  from updateBlog_present [OF this, of pb] blog_merged_merge_blog [of b pb]
  show "\<exists>m st'. updateBlog st k pb = Inr (m, st') \<and> blog_merged b pb m \<and>
         getBlog st' k = Some m \<and> (\<forall>j. j \<noteq> k \<longrightarrow> getBlog st' j = getBlog st j) \<and>
         map fst (blogs st') = map fst (blogs st) \<and> st' = st\<lparr>blogs := blogs st'\<rparr>"
    by blast
next
  fix c assume "getComment st k = Some c"
  from updateComment_present [OF this, of pc] comment_merged_merge_comment [of c pc]
  show "\<exists>m st'. updateComment st k pc = Inr (m, st') \<and> comment_merged c pc m \<and>
         getComment st' k = Some m \<and>
         (\<forall>j. j \<noteq> k \<longrightarrow> getComment st' j = getComment st j) \<and>
         map fst (comments st') = map fst (comments st) \<and>
         st' = st\<lparr>comments := comments st'\<rparr>"
    by blast
qed

lemma demo_store_eval:
  "demo_store =
     \<lparr>users = [(1, user_with_id (demo_user ''u-1'' ''alice'' ''alice@example.org'') 1)],
      blogs = [(1, blog_with_id (demo_blog 1 ''first'' 100) 1)],
      likes = [(1, \<lparr>like_id = 1, like_userId = 1, like_blogId = 1\<rparr>)],
      followers = [(1, \<lparr>follower_id = 1, follower_followerId = 1, follower_followingId = 2\<rparr>)],
      comments = [(1, comment_with_id (demo_comment 1 1 ''nice'') 1)],
      userId = 2, blogId = 2, likeId = 2, followerId = 2, commentId = 2\<rparr>"
  by (simp add: demo_store_def demo_ops_def MemStorage_new_def createUser_def createBlog_def
      createComment_def createLike_def createFollower_def like_with_id_def
      follower_with_id_def Let_def)

theorem update_merges_partial_witness:
  "getUser demo_store (Num 7) = None \<and> getBlog demo_store (Num 7) = None \<and>
   getComment demo_store (Num 7) = None \<and>
   updateUser demo_store (Num 7) (no_user_change\<lparr>pu_bio := Some (Some ''hi'')\<rparr>)
     = Inl (Error ''User not found'') \<and>
   updateBlog demo_store (Num 7) (no_blog_change\<lparr>pb_title := Some ''second''\<rparr>)
     = Inl (Error ''Blog not found'') \<and>
   updateComment demo_store (Num 7) (no_comment_change\<lparr>pc_content := Some ''fine''\<rparr>)
     = Inl (Error ''Comment not found'') \<and>
   getUser demo_store (Num 1)
     = Some (user_with_id (demo_user ''u-1'' ''alice'' ''alice@example.org'') 1) \<and>
   getBlog demo_store (Num 1) = Some (blog_with_id (demo_blog 1 ''first'' 100) 1) \<and>
   getComment demo_store (Num 1) = Some (comment_with_id (demo_comment 1 1 ''nice'') 1) \<and>
   (\<exists>m st'. updateUser demo_store (Num 1) (no_user_change\<lparr>pu_bio := Some (Some ''hi'')\<rparr>)
        = Inr (m, st') \<and>
      user_bio m = Some ''hi'' \<and> user_username m = ''alice'' \<and> getUser st' (Num 1) = Some m) \<and>
   (\<exists>m st'. updateBlog demo_store (Num 1) (no_blog_change\<lparr>pb_title := Some ''second''\<rparr>)
        = Inr (m, st') \<and>
      blog_title m = ''second'' \<and> blog_publishedAt m = Date 100 \<and> getBlog st' (Num 1) = Some m) \<and>
   (\<exists>m st'. updateComment demo_store (Num 1) (no_comment_change\<lparr>pc_content := Some ''fine''\<rparr>)
        = Inr (m, st') \<and>
      comment_content m = ''fine'' \<and> comment_blogId m = 1 \<and> getComment st' (Num 1) = Some m)"
proof -
  let ?pu = "no_user_change\<lparr>pu_bio := Some (Some ''hi'')\<rparr>"
  let ?pb = "no_blog_change\<lparr>pb_title := Some ''second''\<rparr>"
  let ?pc = "no_comment_change\<lparr>pc_content := Some ''fine''\<rparr>"
  let ?u = "user_with_id (demo_user ''u-1'' ''alice'' ''alice@example.org'') 1"
  let ?b = "blog_with_id (demo_blog 1 ''first'' 100) 1"
  let ?c = "comment_with_id (demo_comment 1 1 ''nice'') 1"
  note absent = update_merges_partial [of demo_store "Num 7" ?pu ?pb ?pc]
  note present = update_merges_partial [of demo_store "Num 1" ?pu ?pb ?pc]
  have a: "getUser demo_store (Num 7) = None" "getBlog demo_store (Num 7) = None"
    "getComment demo_store (Num 7) = None"
    by (simp_all add: demo_store_eval getUser_def getBlog_def getComment_def)
  have p: "getUser demo_store (Num 1) = Some ?u" "getBlog demo_store (Num 1) = Some ?b"
    "getComment demo_store (Num 1) = Some ?c"
    by (simp_all add: demo_store_eval getUser_def getBlog_def getComment_def)
  from absent a have e: "updateUser demo_store (Num 7) ?pu = Inl (Error ''User not found'')"
    "updateBlog demo_store (Num 7) ?pb = Inl (Error ''Blog not found'')"
    "updateComment demo_store (Num 7) ?pc = Inl (Error ''Comment not found'')"
    by blast+
  from present p(1) obtain mu su where mu: "updateUser demo_store (Num 1) ?pu = Inr (mu, su)"
    "user_merged ?u ?pu mu" "getUser su (Num 1) = Some mu"
    by blast
  from present p(2) obtain mb sb where mb: "updateBlog demo_store (Num 1) ?pb = Inr (mb, sb)"
    "blog_merged ?b ?pb mb" "getBlog sb (Num 1) = Some mb"
    by blast
  from present p(3) obtain mc sc where mc: "updateComment demo_store (Num 1) ?pc = Inr (mc, sc)"
    "comment_merged ?c ?pc mc" "getComment sc (Num 1) = Some mc"
    by blast
  from mu(2) have fu: "user_bio mu = Some ''hi''" "user_username mu = ''alice''"
    by (simp_all add: user_merged_def replaced_or_kept_def no_user_change_def
        user_with_id_def demo_user_def)
  from mb(2) have fb: "blog_title mb = ''second''" "blog_publishedAt mb = Date 100"
    by (simp_all add: blog_merged_def replaced_or_kept_def no_blog_change_def
        blog_with_id_def demo_blog_def)
  from mc(2) have fc: "comment_content mc = ''fine''" "comment_blogId mc = 1"
    by (simp_all add: comment_merged_def replaced_or_kept_def no_comment_change_def
        comment_with_id_def demo_comment_def)
  show ?thesis
    using a p e mu(1,3) mb(1,3) mc(1,3) fu fb fc by simp
qed

section \<open>The identity field under update\<close>

lemma map_get_in_set: "map_get m (Num k) = Some v \<Longrightarrow> (k, v) \<in> set m"
  by (simp add: map_of_SomeD)

lemma entry_breaks_keys_are_ids:
  "(k, v) \<in> set m \<Longrightarrow> f v \<noteq> k \<Longrightarrow> \<not> list_all (\<lambda>p. f (snd p) = fst p) m"
  by (force simp: list_all_iff)

lemma updateUser_identity:
  assumes "getUser st (Num k) = Some u" and "pu_id p = Some k'"
  shows "\<exists>m st'. updateUser st (Num k) p = Inr (m, st') \<and> user_id m = k' \<and>
           getUser st' (Num k) = Some m \<and> (k' \<noteq> k \<longrightarrow> \<not> user_keys_are_ids st')"
proof -
  from updateUser_present [OF assms(1), of p] obtain st'
    where s: "updateUser st (Num k) p = Inr (merge_user u p, st')"
      "getUser st' (Num k) = Some (merge_user u p)"
    by blast
  have i: "user_id (merge_user u p) = k'"
    using assms(2) by (simp add: merge_user_def)
  from s(2) have "(k, merge_user u p) \<in> set (users st')"
    by (simp add: getUser_def map_get_in_set)
  with i have "k' \<noteq> k \<longrightarrow> \<not> user_keys_are_ids st'"
    by (auto simp: user_keys_are_ids_def dest: entry_breaks_keys_are_ids)
  with s i show ?thesis by blast
qed

lemma updateBlog_identity:
  assumes "getBlog st (Num k) = Some b" and "pb_id p = Some k'"
  shows "\<exists>m st'. updateBlog st (Num k) p = Inr (m, st') \<and> blog_id m = k' \<and>
           getBlog st' (Num k) = Some m \<and> (k' \<noteq> k \<longrightarrow> \<not> blog_keys_are_ids st')"
proof -
  from updateBlog_present [OF assms(1), of p] obtain st'
    where s: "updateBlog st (Num k) p = Inr (merge_blog b p, st')"
      "getBlog st' (Num k) = Some (merge_blog b p)"
    by blast
  have i: "blog_id (merge_blog b p) = k'"
    using assms(2) by (simp add: merge_blog_def)
  from s(2) have "(k, merge_blog b p) \<in> set (blogs st')"
    by (simp add: getBlog_def map_get_in_set)
  with i have "k' \<noteq> k \<longrightarrow> \<not> blog_keys_are_ids st'"
    by (auto simp: blog_keys_are_ids_def dest: entry_breaks_keys_are_ids)
  with s i show ?thesis by blast
qed

lemma updateComment_identity:
  assumes "getComment st (Num k) = Some c" and "pc_id p = Some k'"
  shows "\<exists>m st'. updateComment st (Num k) p = Inr (m, st') \<and> comment_id m = k' \<and>
           getComment st' (Num k) = Some m \<and> (k' \<noteq> k \<longrightarrow> \<not> comment_keys_are_ids st')"
proof -
  from updateComment_present [OF assms(1), of p] obtain st'
    where s: "updateComment st (Num k) p = Inr (merge_comment c p, st')"
      "getComment st' (Num k) = Some (merge_comment c p)"
    by blast
  have i: "comment_id (merge_comment c p) = k'"
    using assms(2) by (simp add: merge_comment_def)
  from s(2) have "(k, merge_comment c p) \<in> set (comments st')"
    by (simp add: getComment_def map_get_in_set)
  with i have "k' \<noteq> k \<longrightarrow> \<not> comment_keys_are_ids st'"
    by (auto simp: comment_keys_are_ids_def dest: entry_breaks_keys_are_ids)
  with s i show ?thesis by blast
qed

text \<open>
  C9. The update operations do not protect the identity field. For User, Post and
  Comment: if the store holds a record under key \<open>k\<close> and the partial update carries
  the identity \<open>k'\<close>, the update succeeds, the record it returns and stores under
  \<open>k\<close> has identity \<open>k'\<close>, so a lookup of \<open>k\<close> gives a record with identity
  \<open>k'\<close>; when \<open>k'\<close> differs from \<open>k\<close> the store no longer has every key equal to
  its record's identity.
\<close>

theorem update_overwrites_identity:
  "(\<forall>u. getUser st (Num k) = Some u \<and> pu_id pu = Some k' \<longrightarrow>
      (\<exists>m st'. updateUser st (Num k) pu = Inr (m, st') \<and> user_id m = k' \<and>
         getUser st' (Num k) = Some m \<and> (k' \<noteq> k \<longrightarrow> \<not> user_keys_are_ids st'))) \<and>
   (\<forall>b. getBlog st (Num k) = Some b \<and> pb_id pb = Some k' \<longrightarrow>
      (\<exists>m st'. updateBlog st (Num k) pb = Inr (m, st') \<and> blog_id m = k' \<and>
         getBlog st' (Num k) = Some m \<and> (k' \<noteq> k \<longrightarrow> \<not> blog_keys_are_ids st'))) \<and>
   (\<forall>c. getComment st (Num k) = Some c \<and> pc_id pc = Some k' \<longrightarrow>
      (\<exists>m st'. updateComment st (Num k) pc = Inr (m, st') \<and> comment_id m = k' \<and>
         getComment st' (Num k) = Some m \<and> (k' \<noteq> k \<longrightarrow> \<not> comment_keys_are_ids st')))"
  using updateUser_identity [of st k _ pu k'] updateBlog_identity [of st k _ pb k']
    updateComment_identity [of st k _ pc k']
  by blast

theorem update_overwrites_identity_witness:
  "user_keys_are_ids demo_store \<and> blog_keys_are_ids demo_store \<and>
   comment_keys_are_ids demo_store \<and>
   getUser demo_store (Num 1)
     = Some (user_with_id (demo_user ''u-1'' ''alice'' ''alice@example.org'') 1) \<and>
   getBlog demo_store (Num 1) = Some (blog_with_id (demo_blog 1 ''first'' 100) 1) \<and>
   getComment demo_store (Num 1) = Some (comment_with_id (demo_comment 1 1 ''nice'') 1) \<and>
   (\<exists>m st'. updateUser demo_store (Num 1) (no_user_change\<lparr>pu_id := Some 5\<rparr>) = Inr (m, st') \<and>
      user_id m = 5 \<and> getUser st' (Num 1) = Some m \<and> \<not> user_keys_are_ids st') \<and>
   (\<exists>m st'. updateBlog demo_store (Num 1) (no_blog_change\<lparr>pb_id := Some 5\<rparr>) = Inr (m, st') \<and>
      blog_id m = 5 \<and> getBlog st' (Num 1) = Some m \<and> \<not> blog_keys_are_ids st') \<and>
   (\<exists>m st'. updateComment demo_store (Num 1) (no_comment_change\<lparr>pc_id := Some 5\<rparr>)
        = Inr (m, st') \<and>
      comment_id m = 5 \<and> getComment st' (Num 1) = Some m \<and> \<not> comment_keys_are_ids st')"
proof -
  have inv: "user_keys_are_ids demo_store" "blog_keys_are_ids demo_store"
    "comment_keys_are_ids demo_store"
    by (simp_all add: demo_store_eval user_keys_are_ids_def blog_keys_are_ids_def
        comment_keys_are_ids_def user_with_id_def blog_with_id_def comment_with_id_def)
  have p: "getUser demo_store (Num 1)
       = Some (user_with_id (demo_user ''u-1'' ''alice'' ''alice@example.org'') 1)"
    "getBlog demo_store (Num 1) = Some (blog_with_id (demo_blog 1 ''first'' 100) 1)"
    "getComment demo_store (Num 1) = Some (comment_with_id (demo_comment 1 1 ''nice'') 1)"
    by (simp_all add: demo_store_eval getUser_def getBlog_def getComment_def)
  have i: "pu_id (no_user_change\<lparr>pu_id := Some 5\<rparr>) = Some 5"
    "pb_id (no_blog_change\<lparr>pb_id := Some 5\<rparr>) = Some 5"
    "pc_id (no_comment_change\<lparr>pc_id := Some 5\<rparr>) = Some 5"
    by simp_all
  note t = update_overwrites_identity [of demo_store 1 "no_user_change\<lparr>pu_id := Some 5\<rparr>" 5
      "no_blog_change\<lparr>pb_id := Some 5\<rparr>" "no_comment_change\<lparr>pc_id := Some 5\<rparr>"]
  from t p(1) i(1) have u: "\<exists>m st'. updateUser demo_store (Num 1) (no_user_change\<lparr>pu_id := Some 5\<rparr>)
        = Inr (m, st') \<and> user_id m = 5 \<and> getUser st' (Num 1) = Some m \<and> \<not> user_keys_are_ids st'"
    by simp
  from t p(2) i(2) have b: "\<exists>m st'. updateBlog demo_store (Num 1) (no_blog_change\<lparr>pb_id := Some 5\<rparr>)
        = Inr (m, st') \<and> blog_id m = 5 \<and> getBlog st' (Num 1) = Some m \<and> \<not> blog_keys_are_ids st'"
    by simp
  from t p(3) i(3) have c: "\<exists>m st'. updateComment demo_store (Num 1) (no_comment_change\<lparr>pc_id := Some 5\<rparr>)
        = Inr (m, st') \<and> comment_id m = 5 \<and> getComment st' (Num 1) = Some m \<and>
        \<not> comment_keys_are_ids st'"
    by simp
  from inv p u b c show ?thesis by simp
qed

section \<open>Identities\<close>

lemmas store_op_defs =
  createUser_def updateUser_def createBlog_def updateBlog_def deleteBlog_def
  createLike_def deleteLike_def createFollower_def deleteFollower_def
  createComment_def updateComment_def deleteComment_def

lemma counter_exec:
  "counter kd (exec st x) = counter kd st + (if creates kd x then 1 else 0)"
  by (cases x; cases kd)
    (simp_all add: store_op_defs Let_def split: option.splits prod.splits)

lemma assigned_creates:
  "creates kd x \<Longrightarrow> assigned st x = Some (kd, counter kd st)"
  by (cases x; cases kd)
    (simp_all add: store_op_defs Let_def user_with_id_def blog_with_id_def like_with_id_def
      follower_with_id_def comment_with_id_def)

lemma assigned_other:
  "\<not> creates kd x \<Longrightarrow> assigned st x = Some (kd', i) \<Longrightarrow> kd' \<noteq> kd"
  by (cases x; cases kd) auto

lemma ids_assigned_upto:
  "ids_assigned kd st ops
     = [counter kd st .. counter kd st + int (length (filter (creates kd) ops)) - 1]"
proof (induction ops arbitrary: st)
  case Nil
  show ?case by simp
next
  case (Cons x xs)
  show ?case
  proof (cases "creates kd x")
    case True
    then show ?thesis
      using Cons [of "exec st x"]
      by (simp add: assigned_creates counter_exec upto_rec1 [of "counter kd st"])
  next
    case False
    then show ?thesis
      using Cons [of "exec st x"] assigned_other [of kd x st]
      by (auto simp: counter_exec split: option.splits)
  qed
qed

lemma counter_new: "counter kd MemStorage_new = 1"
  by (cases kd) (simp_all add: MemStorage_new_def)

text \<open>
  C5. Within each entity type, the identities handed out by the inserts of any sequence of
  operations on a new store are 1, 2, 3, ... in that order, whatever updates and deletes
  come in between: they start at 1, strictly increase and never repeat. In particular,
  inserting a post (identity 1), deleting it (the delete reports true) and inserting
  another post gives the second one identity 2.
\<close>

theorem identities_never_reused:
  "ids_assigned kd MemStorage_new ops = [1 .. int (length (filter (creates kd) ops))] \<and>
   sorted_wrt (<) (ids_assigned kd MemStorage_new ops) \<and>
   distinct (ids_assigned kd MemStorage_new ops) \<and>
   fst (deleteBlog (exec MemStorage_new (CreateBlog a)) (Num 1)) = True \<and>
   ids_assigned KBlog MemStorage_new [CreateBlog a, DeleteBlog (Num 1), CreateBlog b] = [1, 2]"
proof -
  have 1: "ids_assigned kd MemStorage_new ops = [1 .. int (length (filter (creates kd) ops))]"
    by (simp add: ids_assigned_upto counter_new)
  have 2: "sorted_wrt (<) [1 .. int (length (filter (creates kd) ops))]"
    by (rule sorted_wrt_upto)
  have 3: "distinct [1 .. int (length (filter (creates kd) ops))]"
    by (rule distinct_upto)
  have 4: "fst (deleteBlog (exec MemStorage_new (CreateBlog a)) (Num 1)) = True"
    by (simp add: MemStorage_new_def createBlog_def deleteBlog_def Let_def)
  have 5: "ids_assigned KBlog MemStorage_new [CreateBlog a, DeleteBlog (Num 1), CreateBlog b]
      = [1, 2]"
    by (simp add: MemStorage_new_def createBlog_def deleteBlog_def Let_def blog_with_id_def)
  from 1 2 3 4 5 show ?thesis by simp
qed

section \<open>What every reachable store satisfies\<close>

lemma map_delete_fst: "fst (map_delete m k) = (map_get m k \<noteq> None)"
  by (cases k) simp_all

lemma deleteBlog_conv:
  "deleteBlog st k = (map_get (blogs st) k \<noteq> None, st\<lparr>blogs := snd (map_delete (blogs st) k)\<rparr>)"
  by (simp add: deleteBlog_def split_beta map_delete_fst)

lemma deleteLike_conv:
  "deleteLike st k = (map_get (likes st) k \<noteq> None, st\<lparr>likes := snd (map_delete (likes st) k)\<rparr>)"
  by (simp add: deleteLike_def split_beta map_delete_fst)

lemma deleteFollower_conv:
  "deleteFollower st k
     = (map_get (followers st) k \<noteq> None, st\<lparr>followers := snd (map_delete (followers st) k)\<rparr>)"
  by (simp add: deleteFollower_def split_beta map_delete_fst)

lemma deleteComment_conv:
  "deleteComment st k
     = (map_get (comments st) k \<noteq> None, st\<lparr>comments := snd (map_delete (comments st) k)\<rparr>)"
  by (simp add: deleteComment_def split_beta map_delete_fst)

lemmas store_op_convs =
  createUser_def updateUser_def createBlog_def updateBlog_def deleteBlog_conv
  createLike_def deleteLike_conv createFollower_def deleteFollower_conv
  createComment_def updateComment_def deleteComment_conv

lemma keys_map_set:
  "map fst (map_set m k v) = (if k \<in> set (map fst m) then map fst m else map fst m @ [k])"
  by (induction m) auto

lemma keys_map_delete:
  "map fst (snd (map_delete m k)) = filter (\<lambda>x. \<not> js_eq x k) (map fst m)"
  by (cases k) (simp_all add: filter_map comp_def)

lemma map_get_Some_key: "map_get m k = Some v \<Longrightarrow> key_of k \<in> set (map fst m)"
  by (cases k) (auto dest: map_of_SomeD intro: rev_image_eqI)

lemma keys_wf_append:
  "distinct ks \<and> list_all (\<lambda>k. k < c) ks \<Longrightarrow>
   distinct (ks @ [c]) \<and> list_all (\<lambda>k. k < c + 1) (ks @ [c::int])"
  by (fastforce simp: list_all_iff)

lemma keys_wf_filter:
  "distinct ks \<and> list_all (\<lambda>k. k < c) ks \<Longrightarrow>
   distinct (filter P ks) \<and> list_all (\<lambda>k. k < c) (filter P ks)"
  by (auto simp: list_all_iff)

lemma below_not_member: "list_all (\<lambda>k. k < c) ks \<Longrightarrow> (c::int) \<notin> set ks"
  by (auto simp: list_all_iff)

lemma below_not_entry: "list_all (\<lambda>k. k < c) (map fst m) \<Longrightarrow> (c::int, v) \<notin> set m"
  by (force simp: list_all_iff)

lemma map_keys_exec_create:
  "keys_wf kd st \<Longrightarrow> creates kd x \<Longrightarrow> map_keys kd (exec st x) = map_keys kd st @ [counter kd st]"
  by (cases x; cases kd)
    (auto simp: keys_wf_def store_op_defs Let_def keys_map_set dest: below_not_entry)

lemma map_keys_exec_other_cases:
  "\<not> creates kd x \<Longrightarrow>
   map_keys kd (exec st x) = map_keys kd st \<or>
   (\<exists>k. map_keys kd (exec st x) = filter (\<lambda>x. \<not> js_eq x k) (map_keys kd st))"
  by (cases x; cases kd)
    (auto simp: store_op_convs Let_def keys_map_set keys_map_delete
      split: option.splits dest: map_get_Some_key)

lemma map_keys_exec_other:
  assumes "\<not> creates kd x"
  shows "\<exists>P. map_keys kd (exec st x) = filter P (map_keys kd st)"
proof -
  have "map_keys kd st = filter (\<lambda>_. True) (map_keys kd st)" by simp
  with map_keys_exec_other_cases [OF assms, of st] show ?thesis by metis
qed

lemma keys_wf_exec: "keys_wf kd st \<Longrightarrow> keys_wf kd (exec st x)"
proof (cases "creates kd x")
  case True
  assume "keys_wf kd st"
  with True show ?thesis
    using keys_wf_append [of "map_keys kd st" "counter kd st"]
    by (simp add: keys_wf_def map_keys_exec_create counter_exec)
next
  case False
  assume wf: "keys_wf kd st"
  from False obtain P where "map_keys kd (exec st x) = filter P (map_keys kd st)"
    using map_keys_exec_other by blast
  with wf False show ?thesis
    using keys_wf_filter [of "map_keys kd st" "counter kd st" P]
    by (simp add: keys_wf_def counter_exec)
qed

lemma list_all_map_set: "list_all P m \<Longrightarrow> P (k, v) \<Longrightarrow> list_all P (map_set m k v)"
  by (induction m) auto

lemma list_all_map_delete: "list_all P m \<Longrightarrow> list_all P (snd (map_delete m k))"
  by (cases k) (auto simp: list_all_iff)

lemma like_ids_exec:
  "list_all (\<lambda>p. like_id (snd p) = fst p) (likes st) \<Longrightarrow>
   list_all (\<lambda>p. like_id (snd p) = fst p) (likes (exec st x))"
  by (cases x)
    (auto simp: store_op_convs Let_def like_with_id_def split: option.splits
      intro: list_all_map_set list_all_map_delete)

lemma follower_ids_exec:
  "list_all (\<lambda>p. follower_id (snd p) = fst p) (followers st) \<Longrightarrow>
   list_all (\<lambda>p. follower_id (snd p) = fst p) (followers (exec st x))"
  by (cases x)
    (auto simp: store_op_convs Let_def follower_with_id_def split: option.splits
      intro: list_all_map_set list_all_map_delete)

lemma store_inv_new: "store_inv MemStorage_new"
  by (simp add: store_inv_def keys_wf_def MemStorage_new_def)

lemma store_inv_exec: "store_inv st \<Longrightarrow> store_inv (exec st x)"
  unfolding store_inv_def
  by (intro conjI keys_wf_exec like_ids_exec follower_ids_exec) simp_all

lemma store_inv_exec_all: "store_inv st \<Longrightarrow> store_inv (exec_all st ops)"
  by (induction ops arbitrary: st) (simp_all add: store_inv_exec)

lemma store_inv_reachable: "store_inv (exec_all MemStorage_new ops)"
  by (simp add: store_inv_exec_all store_inv_new)

lemma store_inv_fresh:
  assumes "store_inv st"
  shows "userId st \<notin> fst ` set (users st)" "blogId st \<notin> fst ` set (blogs st)"
    "likeId st \<notin> fst ` set (likes st)" "followerId st \<notin> fst ` set (followers st)"
    "commentId st \<notin> fst ` set (comments st)"
  using assms below_not_member [of "userId st" "map fst (users st)"]
    below_not_member [of "blogId st" "map fst (blogs st)"]
    below_not_member [of "likeId st" "map fst (likes st)"]
    below_not_member [of "followerId st" "map fst (followers st)"]
    below_not_member [of "commentId st" "map fst (comments st)"]
  by (simp_all add: store_inv_def keys_wf_def)

section \<open>Insert\<close>

lemma createUser_adds:
  assumes "store_inv st"
  shows "createUser st u =
     (user_with_id u (userId st),
      st\<lparr>userId := userId st + 1,
         users := users st @ [(userId st, user_with_id u (userId st))]\<rparr>)"
  using store_inv_fresh(1) [OF assms] by (simp add: createUser_def Let_def map_set_fresh)

lemma createBlog_adds:
  assumes "store_inv st"
  shows "createBlog st b =
     (blog_with_id b (blogId st),
      st\<lparr>blogId := blogId st + 1,
         blogs := blogs st @ [(blogId st, blog_with_id b (blogId st))]\<rparr>)"
  using store_inv_fresh(2) [OF assms] by (simp add: createBlog_def Let_def map_set_fresh)

lemma createLike_adds:
  assumes "store_inv st"
  shows "createLike st l =
     (like_with_id l (likeId st),
      st\<lparr>likeId := likeId st + 1,
         likes := likes st @ [(likeId st, like_with_id l (likeId st))]\<rparr>)"
  using store_inv_fresh(3) [OF assms] by (simp add: createLike_def Let_def map_set_fresh)

lemma createFollower_adds:
  assumes "store_inv st"
  shows "createFollower st f =
     (follower_with_id f (followerId st),
      st\<lparr>followerId := followerId st + 1,
         followers := followers st @ [(followerId st, follower_with_id f (followerId st))]\<rparr>)"
  using store_inv_fresh(4) [OF assms]
  by (simp add: createFollower_def Let_def map_set_fresh)

lemma createComment_adds:
  assumes "store_inv st"
  shows "createComment st c =
     (comment_with_id c (commentId st),
      st\<lparr>commentId := commentId st + 1,
         comments := comments st @ [(commentId st, comment_with_id c (commentId st))]\<rparr>)"
  using store_inv_fresh(5) [OF assms]
  by (simp add: createComment_def Let_def map_set_fresh)

lemma without_id_with_id:
  "user_without_id (user_with_id u k) = u" "blog_without_id (blog_with_id b k) = b"
  "like_without_id (like_with_id l k) = l" "follower_without_id (follower_with_id f k) = f"
  "comment_without_id (comment_with_id c k) = c"
  by (simp_all add: user_without_id_def user_with_id_def blog_without_id_def blog_with_id_def
      like_without_id_def like_with_id_def follower_without_id_def follower_with_id_def
      comment_without_id_def comment_with_id_def)

lemma with_id_id:
  "user_id (user_with_id u k) = k" "blog_id (blog_with_id b k) = k"
  "like_id (like_with_id l k) = k" "follower_id (follower_with_id f k) = k"
  "comment_id (comment_with_id c k) = k"
  by (simp_all add: user_with_id_def blog_with_id_def like_with_id_def follower_with_id_def
      comment_with_id_def)

text \<open>
  C6. For every entity type, in the store reached by any sequence of operations from a new
  store, and for every input record: the insert returns the input with the counter's
  value added as identity, a lookup of that identity in the resulting store gives that
  same record, and the resulting store is the old one with that one entry added at the
  end of the type's map and the type's counter advanced by one; nothing else changes.
  (Likes and follows have no lookup by identity in the interface; the map itself is read.)
\<close>

theorem insert_then_get:
  "(let st = exec_all MemStorage_new ops; (r, st') = createUser st u
    in user_id r = userId st \<and> user_without_id r = u \<and>
       getUser st' (Num (user_id r)) = Some r \<and>
       st' = st\<lparr>userId := userId st + 1, users := users st @ [(user_id r, r)]\<rparr>) \<and>
   (let st = exec_all MemStorage_new ops; (r, st') = createBlog st b
    in blog_id r = blogId st \<and> blog_without_id r = b \<and>
       getBlog st' (Num (blog_id r)) = Some r \<and>
       st' = st\<lparr>blogId := blogId st + 1, blogs := blogs st @ [(blog_id r, r)]\<rparr>) \<and>
   (let st = exec_all MemStorage_new ops; (r, st') = createLike st l
    in like_id r = likeId st \<and> like_without_id r = l \<and>
       map_get (likes st') (Num (like_id r)) = Some r \<and>
       st' = st\<lparr>likeId := likeId st + 1, likes := likes st @ [(like_id r, r)]\<rparr>) \<and>
   (let st = exec_all MemStorage_new ops; (r, st') = createFollower st f
    in follower_id r = followerId st \<and> follower_without_id r = f \<and>
       map_get (followers st') (Num (follower_id r)) = Some r \<and>
       st' = st\<lparr>followerId := followerId st + 1,
                followers := followers st @ [(follower_id r, r)]\<rparr>) \<and>
   (let st = exec_all MemStorage_new ops; (r, st') = createComment st c
    in comment_id r = commentId st \<and> comment_without_id r = c \<and>
       getComment st' (Num (comment_id r)) = Some r \<and>
       st' = st\<lparr>commentId := commentId st + 1,
                comments := comments st @ [(comment_id r, r)]\<rparr>)"
proof -
  let ?st = "exec_all MemStorage_new ops"
  have inv: "store_inv ?st" by (rule store_inv_reachable)
  note fresh = store_inv_fresh [OF inv]
  have 1: "let (r, st') = createUser ?st u
    in user_id r = userId ?st \<and> user_without_id r = u \<and>
       getUser st' (Num (user_id r)) = Some r \<and>
       st' = ?st\<lparr>userId := userId ?st + 1, users := users ?st @ [(user_id r, r)]\<rparr>"
    using fresh(1)
    by (simp add: createUser_adds [OF inv] with_id_id without_id_with_id getUser_def
        map_add_Some_iff map_of_eq_None_iff)
  have 2: "let (r, st') = createBlog ?st b
    in blog_id r = blogId ?st \<and> blog_without_id r = b \<and>
       getBlog st' (Num (blog_id r)) = Some r \<and>
       st' = ?st\<lparr>blogId := blogId ?st + 1, blogs := blogs ?st @ [(blog_id r, r)]\<rparr>"
    using fresh(2)
    by (simp add: createBlog_adds [OF inv] with_id_id without_id_with_id getBlog_def
        map_add_Some_iff map_of_eq_None_iff)
  have 3: "let (r, st') = createLike ?st l
    in like_id r = likeId ?st \<and> like_without_id r = l \<and>
       map_get (likes st') (Num (like_id r)) = Some r \<and>
       st' = ?st\<lparr>likeId := likeId ?st + 1, likes := likes ?st @ [(like_id r, r)]\<rparr>"
    using fresh(3)
    by (simp add: createLike_adds [OF inv] with_id_id without_id_with_id map_add_Some_iff map_of_eq_None_iff)
  have 4: "let (r, st') = createFollower ?st f
    in follower_id r = followerId ?st \<and> follower_without_id r = f \<and>
       map_get (followers st') (Num (follower_id r)) = Some r \<and>
       st' = ?st\<lparr>followerId := followerId ?st + 1,
                followers := followers ?st @ [(follower_id r, r)]\<rparr>"
    using fresh(4)
    by (simp add: createFollower_adds [OF inv] with_id_id without_id_with_id
        map_add_Some_iff map_of_eq_None_iff)
  have 5: "let (r, st') = createComment ?st c
    in comment_id r = commentId ?st \<and> comment_without_id r = c \<and>
       getComment st' (Num (comment_id r)) = Some r \<and>
       st' = ?st\<lparr>commentId := commentId ?st + 1,
                comments := comments ?st @ [(comment_id r, r)]\<rparr>"
    using fresh(5)
    by (simp add: createComment_adds [OF inv] with_id_id without_id_with_id getComment_def
        map_add_Some_iff map_of_eq_None_iff)
  from 1 2 3 4 5 show ?thesis by (simp only: Let_def)
qed

section \<open>Delete\<close>

lemma map_get_after_delete: "map_get (snd (map_delete m k)) k = None"
  by (cases k) (auto simp: map_of_eq_None_iff)

lemma map_of_filter_other: "j \<noteq> k \<Longrightarrow> map_of (filter (\<lambda>p. fst p \<noteq> k) m) j = map_of m j"
  by (induction m) auto

lemma map_get_delete_other: "j \<noteq> k \<Longrightarrow> map_get (snd (map_delete m k)) j = map_get m j"
  by (cases k; cases j) (simp_all add: map_of_filter_other)

lemma map_get_None_key: "key_of k \<notin> set (map fst m) \<Longrightarrow> map_get m k = None"
  by (cases k) (simp_all add: map_of_eq_None_iff)

lemma store_inv_keys_wf: "store_inv st \<Longrightarrow> keys_wf kd st"
  by (cases kd) (simp_all add: store_inv_def)

lemma absent_exec:
  assumes "keys_wf kd st" and "k < counter kd st" and "k \<notin> set (map_keys kd st)"
  shows "k \<notin> set (map_keys kd (exec st x))"
proof (cases "creates kd x")
  case True
  with assms show ?thesis by (simp add: map_keys_exec_create)
next
  case False
  then obtain P where "map_keys kd (exec st x) = filter P (map_keys kd st)"
    using map_keys_exec_other by blast
  with assms(3) show ?thesis by simp
qed

lemma absent_stays:
  "store_inv st \<Longrightarrow> k < counter kd st \<Longrightarrow> k \<notin> set (map_keys kd st) \<Longrightarrow>
   k \<notin> set (map_keys kd (exec_all st ops))"
proof (induction ops arbitrary: st)
  case Nil
  then show ?case by simp
next
  case (Cons x xs)
  have "store_inv (exec st x)" using Cons.prems(1) by (rule store_inv_exec)
  moreover have "k < counter kd (exec st x)" using Cons.prems(2) by (simp add: counter_exec)
  moreover have "k \<notin> set (map_keys kd (exec st x))"
    using Cons.prems store_inv_keys_wf [of st kd] by (simp add: absent_exec)
  ultimately show ?case using Cons.IH by simp
qed

lemma key_below_counter:
  "store_inv st \<Longrightarrow> k \<in> set (map_keys kd st) \<Longrightarrow> k < counter kd st"
  using store_inv_keys_wf [of st kd] by (auto simp: keys_wf_def list_all_iff)

lemma deleted_key_stays_absent:
  assumes inv: "store_inv st" and present: "key_of k \<in> set (map_keys kd st)"
    and st1: "st1 = exec st x" and gone: "key_of k \<notin> set (map_keys kd st1)"
  shows "key_of k \<notin> set (map_keys kd (exec_all st1 ops))"
proof -
  have "key_of k < counter kd st" using inv present by (rule key_below_counter)
  then have "key_of k < counter kd st1" by (simp add: st1 counter_exec)
  moreover have "store_inv st1" using inv by (simp add: st1 store_inv_exec)
  ultimately show ?thesis using gone by (simp add: absent_stays)
qed

lemma key_gone_after_delete:
  "map_get m k \<noteq> None \<Longrightarrow> key_of k \<notin> set (map fst (snd (map_delete m k)))"
  by (cases k) (auto simp: keys_map_delete)

lemma deleteBlog_later:
  assumes "store_inv st" and "getBlog st k \<noteq> None"
  shows "\<not> fst (deleteBlog (exec_all (snd (deleteBlog st k)) ops) k)"
proof -
  from assms(2) have k: "k \<noteq> NaN" and p: "key_of k \<in> set (map_keys KBlog st)"
    by (auto simp: getBlog_def dest: map_get_Some_key)
  have "key_of k \<notin> set (map_keys KBlog (snd (deleteBlog st k)))"
    using assms(2) key_gone_after_delete [of "blogs st" k] by (simp add: deleteBlog_conv getBlog_def)
  with assms(1) p have "key_of k \<notin> set (map_keys KBlog (exec_all (snd (deleteBlog st k)) ops))"
    using deleted_key_stays_absent [of st k KBlog _ "DeleteBlog k"] by simp
  then show ?thesis by (simp add: deleteBlog_conv map_get_None_key)
qed

lemma deleteLike_later:
  assumes "store_inv st" and "map_get (likes st) k \<noteq> None"
  shows "\<not> fst (deleteLike (exec_all (snd (deleteLike st k)) ops) k)"
proof -
  from assms(2) have k: "k \<noteq> NaN" and p: "key_of k \<in> set (map_keys KLike st)"
    by (auto dest: map_get_Some_key)
  have "key_of k \<notin> set (map_keys KLike (snd (deleteLike st k)))"
    using assms(2) key_gone_after_delete [of "likes st" k] by (simp add: deleteLike_conv)
  with assms(1) p have "key_of k \<notin> set (map_keys KLike (exec_all (snd (deleteLike st k)) ops))"
    using deleted_key_stays_absent [of st k KLike _ "DeleteLike k"] by simp
  then show ?thesis by (simp add: deleteLike_conv map_get_None_key)
qed

lemma deleteFollower_later:
  assumes "store_inv st" and "map_get (followers st) k \<noteq> None"
  shows "\<not> fst (deleteFollower (exec_all (snd (deleteFollower st k)) ops) k)"
proof -
  from assms(2) have k: "k \<noteq> NaN" and p: "key_of k \<in> set (map_keys KFollower st)"
    by (auto dest: map_get_Some_key)
  have "key_of k \<notin> set (map_keys KFollower (snd (deleteFollower st k)))"
    using assms(2) key_gone_after_delete [of "followers st" k] by (simp add: deleteFollower_conv)
  with assms(1) p
  have "key_of k \<notin> set (map_keys KFollower (exec_all (snd (deleteFollower st k)) ops))"
    using deleted_key_stays_absent [of st k KFollower _ "DeleteFollower k"] by simp
  then show ?thesis by (simp add: deleteFollower_conv map_get_None_key)
qed

lemma deleteComment_later:
  assumes "store_inv st" and "getComment st k \<noteq> None"
  shows "\<not> fst (deleteComment (exec_all (snd (deleteComment st k)) ops) k)"
proof -
  from assms(2) have k: "k \<noteq> NaN" and p: "key_of k \<in> set (map_keys KComment st)"
    by (auto simp: getComment_def dest: map_get_Some_key)
  have "key_of k \<notin> set (map_keys KComment (snd (deleteComment st k)))"
    using assms(2) key_gone_after_delete [of "comments st" k] by (simp add: deleteComment_conv getComment_def)
  with assms(1) p
  have "key_of k \<notin> set (map_keys KComment (exec_all (snd (deleteComment st k)) ops))"
    using deleted_key_stays_absent [of st k KComment _ "DeleteComment k"] by simp
  then show ?thesis by (simp add: deleteComment_conv map_get_None_key)
qed

lemma deleteBlog_now:
  "fst (deleteBlog st k) = (getBlog st k \<noteq> None) \<and>
   getBlog (snd (deleteBlog st k)) k = None \<and>
   (\<forall>j. j \<noteq> k \<longrightarrow> getBlog (snd (deleteBlog st k)) j = getBlog st j) \<and>
   snd (deleteBlog st k) = st\<lparr>blogs := blogs (snd (deleteBlog st k))\<rparr>"
  by (simp add: deleteBlog_conv getBlog_def map_get_after_delete map_get_delete_other)

lemma deleteLike_now:
  "fst (deleteLike st k) = (map_get (likes st) k \<noteq> None) \<and>
   map_get (likes (snd (deleteLike st k))) k = None \<and>
   (\<forall>j. j \<noteq> k \<longrightarrow> map_get (likes (snd (deleteLike st k))) j = map_get (likes st) j) \<and>
   snd (deleteLike st k) = st\<lparr>likes := likes (snd (deleteLike st k))\<rparr>"
  by (simp add: deleteLike_conv map_get_after_delete map_get_delete_other)

lemma deleteFollower_now:
  "fst (deleteFollower st k) = (map_get (followers st) k \<noteq> None) \<and>
   map_get (followers (snd (deleteFollower st k))) k = None \<and>
   (\<forall>j. j \<noteq> k \<longrightarrow>
      map_get (followers (snd (deleteFollower st k))) j = map_get (followers st) j) \<and>
   snd (deleteFollower st k) = st\<lparr>followers := followers (snd (deleteFollower st k))\<rparr>"
  by (simp add: deleteFollower_conv map_get_after_delete map_get_delete_other)

lemma deleteComment_now:
  "fst (deleteComment st k) = (getComment st k \<noteq> None) \<and>
   getComment (snd (deleteComment st k)) k = None \<and>
   (\<forall>j. j \<noteq> k \<longrightarrow> getComment (snd (deleteComment st k)) j = getComment st j) \<and>
   snd (deleteComment st k) = st\<lparr>comments := comments (snd (deleteComment st k))\<rparr>"
  by (simp add: deleteComment_conv getComment_def map_get_after_delete map_get_delete_other)


text \<open>
  C7. For Post, Like, Follow and Comment, every store and every identity: the delete
  returns a boolean (it has no failing branch), true exactly when a record was stored
  under the identity; afterwards no record is stored under it, every other entry is as
  before and nothing but the type's map has changed. In a store reached by operations
  from a new store, a delete of a stored identity returns true, and after any further
  sequence of operations (none included) a delete of the same identity returns false.
\<close>

theorem delete_true_once:
  "(fst (deleteBlog st k) = (getBlog st k \<noteq> None) \<and>
    getBlog (snd (deleteBlog st k)) k = None \<and>
    (\<forall>j. j \<noteq> k \<longrightarrow> getBlog (snd (deleteBlog st k)) j = getBlog st j) \<and>
    snd (deleteBlog st k) = st\<lparr>blogs := blogs (snd (deleteBlog st k))\<rparr>) \<and>
   (fst (deleteLike st k) = (map_get (likes st) k \<noteq> None) \<and>
    map_get (likes (snd (deleteLike st k))) k = None \<and>
    (\<forall>j. j \<noteq> k \<longrightarrow> map_get (likes (snd (deleteLike st k))) j = map_get (likes st) j) \<and>
    snd (deleteLike st k) = st\<lparr>likes := likes (snd (deleteLike st k))\<rparr>) \<and>
   (fst (deleteFollower st k) = (map_get (followers st) k \<noteq> None) \<and>
    map_get (followers (snd (deleteFollower st k))) k = None \<and>
    (\<forall>j. j \<noteq> k \<longrightarrow>
       map_get (followers (snd (deleteFollower st k))) j = map_get (followers st) j) \<and>
    snd (deleteFollower st k) = st\<lparr>followers := followers (snd (deleteFollower st k))\<rparr>) \<and>
   (fst (deleteComment st k) = (getComment st k \<noteq> None) \<and>
    getComment (snd (deleteComment st k)) k = None \<and>
    (\<forall>j. j \<noteq> k \<longrightarrow> getComment (snd (deleteComment st k)) j = getComment st j) \<and>
    snd (deleteComment st k) = st\<lparr>comments := comments (snd (deleteComment st k))\<rparr>) \<and>
   (\<forall>ops ops'. getBlog (exec_all MemStorage_new ops) k \<noteq> None \<longrightarrow>
      fst (deleteBlog (exec_all MemStorage_new ops) k) \<and>
      \<not> fst (deleteBlog (exec_all (snd (deleteBlog (exec_all MemStorage_new ops) k)) ops') k)) \<and>
   (\<forall>ops ops'. map_get (likes (exec_all MemStorage_new ops)) k \<noteq> None \<longrightarrow>
      fst (deleteLike (exec_all MemStorage_new ops) k) \<and>
      \<not> fst (deleteLike (exec_all (snd (deleteLike (exec_all MemStorage_new ops) k)) ops') k)) \<and>
   (\<forall>ops ops'. map_get (followers (exec_all MemStorage_new ops)) k \<noteq> None \<longrightarrow>
      fst (deleteFollower (exec_all MemStorage_new ops) k) \<and>
      \<not> fst (deleteFollower
              (exec_all (snd (deleteFollower (exec_all MemStorage_new ops) k)) ops') k)) \<and>
   (\<forall>ops ops'. getComment (exec_all MemStorage_new ops) k \<noteq> None \<longrightarrow>
      fst (deleteComment (exec_all MemStorage_new ops) k) \<and>
      \<not> fst (deleteComment
              (exec_all (snd (deleteComment (exec_all MemStorage_new ops) k)) ops') k))"
proof -
  have E: "\<forall>ops ops'. getBlog (exec_all MemStorage_new ops) k \<noteq> None \<longrightarrow>
      fst (deleteBlog (exec_all MemStorage_new ops) k) \<and>
      \<not> fst (deleteBlog (exec_all (snd (deleteBlog (exec_all MemStorage_new ops) k)) ops') k)"
    using deleteBlog_now [THEN conjunct1] deleteBlog_later [OF store_inv_reachable]
    by simp
  have F: "\<forall>ops ops'. map_get (likes (exec_all MemStorage_new ops)) k \<noteq> None \<longrightarrow>
      fst (deleteLike (exec_all MemStorage_new ops) k) \<and>
      \<not> fst (deleteLike (exec_all (snd (deleteLike (exec_all MemStorage_new ops) k)) ops') k)"
    using deleteLike_now [THEN conjunct1] deleteLike_later [OF store_inv_reachable]
    by simp
  have G: "\<forall>ops ops'. map_get (followers (exec_all MemStorage_new ops)) k \<noteq> None \<longrightarrow>
      fst (deleteFollower (exec_all MemStorage_new ops) k) \<and>
      \<not> fst (deleteFollower
              (exec_all (snd (deleteFollower (exec_all MemStorage_new ops) k)) ops') k)"
    using deleteFollower_now [THEN conjunct1] deleteFollower_later [OF store_inv_reachable]
    by simp
  have H: "\<forall>ops ops'. getComment (exec_all MemStorage_new ops) k \<noteq> None \<longrightarrow>
      fst (deleteComment (exec_all MemStorage_new ops) k) \<and>
      \<not> fst (deleteComment
              (exec_all (snd (deleteComment (exec_all MemStorage_new ops) k)) ops') k)"
    using deleteComment_now [THEN conjunct1] deleteComment_later [OF store_inv_reachable]
    by simp
  show ?thesis
    by (rule conjI [OF deleteBlog_now conjI [OF deleteLike_now conjI [OF deleteFollower_now
      conjI [OF deleteComment_now conjI [OF E conjI [OF F conjI [OF G H]]]]]]])
qed

theorem delete_true_once_witness:
  "getBlog demo_store (Num 1) \<noteq> None \<and> map_get (likes demo_store) (Num 1) \<noteq> None \<and>
   map_get (followers demo_store) (Num 1) \<noteq> None \<and> getComment demo_store (Num 1) \<noteq> None \<and>
   fst (deleteBlog demo_store (Num 1)) \<and>
   \<not> fst (deleteBlog (exec_all (snd (deleteBlog demo_store (Num 1)))
             [CreateBlog (demo_blog 1 ''again'' 7)]) (Num 1)) \<and>
   fst (deleteLike demo_store (Num 1)) \<and>
   \<not> fst (deleteLike (exec_all (snd (deleteLike demo_store (Num 1)))
             [CreateLike \<lparr>il_userId = 1, il_blogId = 1\<rparr>]) (Num 1)) \<and>
   fst (deleteFollower demo_store (Num 1)) \<and>
   \<not> fst (deleteFollower (exec_all (snd (deleteFollower demo_store (Num 1)))
             [CreateFollower \<lparr>if_followerId = 1, if_followingId = 2\<rparr>]) (Num 1)) \<and>
   fst (deleteComment demo_store (Num 1)) \<and>
   \<not> fst (deleteComment (exec_all (snd (deleteComment demo_store (Num 1)))
             [CreateComment (demo_comment 1 1 ''again'')]) (Num 1)) \<and>
   Num 2 \<noteq> Num 1 \<and>
   getBlog (snd (deleteBlog demo_store (Num 1))) (Num 2) = getBlog demo_store (Num 2)"
proof -
  note t = delete_true_once [of demo_store "Num 1"]
  have q: "getBlog demo_store (Num 1) \<noteq> None" "map_get (likes demo_store) (Num 1) \<noteq> None"
    "map_get (followers demo_store) (Num 1) \<noteq> None" "getComment demo_store (Num 1) \<noteq> None"
    by (simp_all add: demo_store_eval getBlog_def getComment_def)
  have n: "Num 2 \<noteq> Num 1" by simp
  note tb = t [THEN conjunct2, THEN conjunct2, THEN conjunct2, THEN conjunct2, THEN conjunct1,
      rule_format, of demo_ops "[CreateBlog (demo_blog 1 ''again'' 7)]", folded demo_store_def]
  note tl = t [THEN conjunct2, THEN conjunct2, THEN conjunct2, THEN conjunct2, THEN conjunct2,
      THEN conjunct1, rule_format, of demo_ops "[CreateLike \<lparr>il_userId = 1, il_blogId = 1\<rparr>]",
      folded demo_store_def]
  note tf = t [THEN conjunct2, THEN conjunct2, THEN conjunct2, THEN conjunct2, THEN conjunct2,
      THEN conjunct2, THEN conjunct1, rule_format, of demo_ops
      "[CreateFollower \<lparr>if_followerId = 1, if_followingId = 2\<rparr>]", folded demo_store_def]
  note tc = t [THEN conjunct2, THEN conjunct2, THEN conjunct2, THEN conjunct2, THEN conjunct2,
      THEN conjunct2, THEN conjunct2, rule_format, of demo_ops
      "[CreateComment (demo_comment 1 1 ''again'')]", folded demo_store_def]
  note to = t [THEN conjunct1, THEN conjunct2, THEN conjunct2, THEN conjunct1, rule_format,
      of "Num 2"]
  show ?thesis
    using q n tb [OF q(1)] tl [OF q(2)] tf [OF q(3)] tc [OF q(4)] to [OF n]
    by (intro conjI) (elim conjE, assumption)+
qed

section \<open>The paginated post listing\<close>

lemma by_publishedAt_dates:
  "has_date a \<Longrightarrow> has_date b \<Longrightarrow>
   by_publishedAt a b = Inr (published_time b - published_time a)"
  by (simp add: by_publishedAt_def has_date_def published_time_def split: timestamp.splits)

lemma by_publishedAt_throws:
  "\<not> has_date a \<or> \<not> has_date b \<Longrightarrow> by_publishedAt a b = Inl TypeError"
  by (cases "blog_publishedAt a"; cases "blog_publishedAt b")
    (simp_all add: by_publishedAt_def has_date_def)

lemma insert_by_dates:
  "has_date x \<Longrightarrow> list_all has_date ys \<Longrightarrow>
   insert_by by_publishedAt x ys = Inr (insort_key (\<lambda>b. - published_time b) x ys)"
  by (induction ys) (simp_all add: by_publishedAt_dates)

lemma js_sort_dates:
  "list_all has_date xs \<Longrightarrow>
   js_sort by_publishedAt xs = Inr (sort_key (\<lambda>b. - published_time b) xs)"
proof (induction xs)
  case Nil
  show ?case by simp
next
  case (Cons x xs)
  then have "list_all has_date (sort_key (\<lambda>b. - published_time b) xs)"
    by (simp add: list_all_iff)
  with Cons show ?case by (simp add: insert_by_dates sort_key_def)
qed

lemma insert_by_throws:
  "\<not> has_date x \<Longrightarrow> ys \<noteq> [] \<Longrightarrow> insert_by by_publishedAt x ys = Inl TypeError"
  by (cases ys) (simp_all add: by_publishedAt_throws)

lemma insert_by_single_throws:
  "\<not> has_date y \<Longrightarrow> insert_by by_publishedAt x [y] = Inl TypeError"
  by (simp add: by_publishedAt_throws)

lemma js_sort_length: "js_sort cmp xs = Inr ys \<Longrightarrow> length ys = length xs"
proof (induction xs arbitrary: ys)
  case Nil
  then show ?case by simp
next
  case (Cons x xs)
  have ins: "insert_by cmp x zs = Inr r \<Longrightarrow> length r = Suc (length zs)" for zs r
    by (induction zs arbitrary: r) (auto split: sum.splits if_splits)
  from Cons show ?case by (auto split: sum.splits dest: ins)
qed

lemma js_sort_throws:
  "\<not> list_all has_date xs \<Longrightarrow> 2 \<le> length xs \<Longrightarrow> js_sort by_publishedAt xs = Inl TypeError"
proof (induction xs)
  case Nil
  then show ?case by simp
next
  case (Cons x xs)
  show ?case
  proof (cases "list_all has_date xs")
    case True
    with Cons.prems have x: "\<not> has_date x" and ne: "xs \<noteq> []" by auto
    from True have "js_sort by_publishedAt xs = Inr (sort_key (\<lambda>b. - published_time b) xs)"
      by (rule js_sort_dates)
    moreover have "sort_key (\<lambda>b. - published_time b) xs \<noteq> []"
      using ne by (metis length_sort length_0_conv)
    ultimately show ?thesis using x by (simp add: insert_by_throws)
  next
    case False
    show ?thesis
    proof (cases "2 \<le> length xs")
      case True
      with False Cons.IH show ?thesis by simp
    next
      case short: False
      with False obtain y where xs: "xs = [y]" and y: "\<not> has_date y"
        by (cases xs) (auto simp: not_le less_Suc_eq_le)
      then show ?thesis by (simp add: by_publishedAt_throws)
    qed
  qed
qed

lemma js_sort_short: "length xs < 2 \<Longrightarrow> js_sort cmp xs = Inr xs"
  by (cases xs) (auto simp: less_Suc_eq_le)











lemma tie_store_eval:
  "tie_store =
     \<lparr>users = [],
      blogs = [(1, blog_with_id (demo_blog 1 ''a'' 5) 1), (2, blog_with_id (demo_blog 2 ''b'' 5) 2)],
      likes = [], followers = [], comments = [],
      userId = 1, blogId = 3, likeId = 1, followerId = 1, commentId = 1\<rparr>"
  by (simp add: tie_store_def MemStorage_new_def createBlog_def Let_def)




section \<open>The query parameters of the post listing\<close>

lemma js_add_NaN: "js_add x NaN = NaN" "js_add NaN x = NaN"
  by (cases x; simp)+

lemma js_slice_NaN: "js_slice xs a NaN = []"
  by (simp add: js_slice_def)

lemma js_slice_negative_end:
  "l < 0 \<Longrightarrow> js_slice xs (Num 0) (Num l) = take (length xs - nat (- l)) xs"
proof -
  assume "l < 0"
  then have "nat (max (int (length xs) + l) 0) = length xs - nat (- l)" by linarith
  with \<open>l < 0\<close> show ?thesis by (simp add: js_slice_def)
qed

lemma get_blogs_status:
  "fst (get_blogs st q)
     = (if 2 \<le> length (blogs st) \<and> \<not> list_all has_date (map_values (blogs st)) then 500
        else 200)"
proof (cases "2 \<le> length (blogs st) \<and> \<not> list_all has_date (map_values (blogs st))")
  case True
  then show ?thesis
    by (simp add: get_blogs_def getBlogs_def js_sort_throws map_values_def handleError_def)
next
  case False
  then consider "list_all has_date (map_values (blogs st))" | "length (blogs st) < 2"
    by fastforce
  then have "\<exists>sorted. js_sort by_publishedAt (map_values (blogs st)) = Inr sorted"
    by cases (simp_all add: js_sort_dates js_sort_short map_values_def)
  with False show ?thesis by (auto simp: get_blogs_def getBlogs_def Let_def)
qed


text \<open>
  C8, as the code has it. The handler of \<^verbatim>\<open>GET /api/blogs\<close> rejects no request for its
  limit or offset: it calls the listing with \<^verbatim>\<open>parseInt\<close> of each parameter (10 and 0
  for a parameter that is absent or empty), negative numbers and \<^verbatim>\<open>NaN\<close> included, and
  answers 200 with what the listing returns, or 500 when the listing throws. Which of
  the two depends on the stored posts alone (500 exactly when there are two or more posts
  and one carries no \<^verbatim>\<open>Date\<close>), not on the parameters. Where the sort returns, a
  request in which limit or offset parses to \<^verbatim>\<open>NaN\<close> is answered 200 with the empty
  list, and a request with a negative limit \<open>l\<close> and no offset is answered 200 with the
  sorted posts without the last \<open>-l\<close> of them.
\<close>

theorem get_blogs_unvalidated:
  "get_blogs st q
     = (case getBlogs st (Some (query_number (q_limit q) 10))
               (Some (query_number (q_offset q) 0)) of
          Inl e \<Rightarrow> (500, Message ''Internal server error'')
        | Inr listed \<Rightarrow> (200, BlogsJson listed)) \<and>
   query_number Falsy d = Num d \<and> query_number (Truthy n) d = n \<and>
   fst (get_blogs st q)
     = (if 2 \<le> length (blogs st) \<and> \<not> list_all has_date (map_values (blogs st)) then 500
        else 200) \<and>
   (\<forall>sorted. js_sort by_publishedAt (map_values (blogs st)) = Inr sorted \<and>
        (q_limit q = Truthy NaN \<or> q_offset q = Truthy NaN) \<longrightarrow>
      get_blogs st q = (200, BlogsJson [])) \<and>
   (\<forall>sorted l. js_sort by_publishedAt (map_values (blogs st)) = Inr sorted \<and>
        q_limit q = Truthy (Num l) \<and> l < 0 \<and> q_offset q = Falsy \<longrightarrow>
      get_blogs st q = (200, BlogsJson (take (length sorted - nat (- l)) sorted)))"
proof -
  have 1: "get_blogs st q
     = (case getBlogs st (Some (query_number (q_limit q) 10))
               (Some (query_number (q_offset q) 0)) of
          Inl e \<Rightarrow> (500, Message ''Internal server error'')
        | Inr listed \<Rightarrow> (200, BlogsJson listed))"
    by (simp add: get_blogs_def handleError_def Let_def split: sum.splits)
  have 2: "query_number Falsy d = Num d" "query_number (Truthy n) d = n"
    by (simp_all add: query_number_def)
  have 3: "\<forall>sorted. js_sort by_publishedAt (map_values (blogs st)) = Inr sorted \<and>
        (q_limit q = Truthy NaN \<or> q_offset q = Truthy NaN) \<longrightarrow>
      get_blogs st q = (200, BlogsJson [])"
    by (auto simp: get_blogs_def getBlogs_def query_number_def Let_def js_add_NaN js_slice_NaN)
  have 4: "\<forall>sorted l. js_sort by_publishedAt (map_values (blogs st)) = Inr sorted \<and>
        q_limit q = Truthy (Num l) \<and> l < 0 \<and> q_offset q = Falsy \<longrightarrow>
      get_blogs st q = (200, BlogsJson (take (length sorted - nat (- l)) sorted))"
    by (auto simp: get_blogs_def getBlogs_def query_number_def Let_def js_slice_negative_end)
  show ?thesis
    by (rule conjI [OF 1 conjI [OF 2(1) conjI [OF 2(2) conjI [OF get_blogs_status conjI [OF 3 4]]]]])
qed

theorem get_blogs_unvalidated_witness:
  "js_sort by_publishedAt (map_values (blogs tie_store))
     = Inr [blog_with_id (demo_blog 1 ''a'' 5) 1, blog_with_id (demo_blog 2 ''b'' 5) 2] \<and>
   q_offset \<lparr>q_limit = Falsy, q_offset = Truthy NaN\<rparr> = Truthy NaN \<and>
   get_blogs tie_store \<lparr>q_limit = Falsy, q_offset = Truthy NaN\<rparr> = (200, BlogsJson []) \<and>
   q_limit \<lparr>q_limit = Truthy (Num (- 1)), q_offset = Falsy\<rparr> = Truthy (Num (- 1)) \<and>
   (- 1 :: int) < 0 \<and> q_offset \<lparr>q_limit = Truthy (Num (- 1)), q_offset = Falsy\<rparr> = Falsy \<and>
   get_blogs tie_store \<lparr>q_limit = Truthy (Num (- 1)), q_offset = Falsy\<rparr>
     = (200, BlogsJson [blog_with_id (demo_blog 1 ''a'' 5) 1])"
proof -
  let ?a = "blog_with_id (demo_blog 1 ''a'' 5) 1"
  let ?b = "blog_with_id (demo_blog 2 ''b'' 5) 2"
  let ?q1 = "\<lparr>q_limit = Falsy, q_offset = Truthy NaN\<rparr>"
  let ?q2 = "\<lparr>q_limit = Truthy (Num (- 1)), q_offset = Falsy\<rparr>"
  have s: "js_sort by_publishedAt (map_values (blogs tie_store)) = Inr [?a, ?b]"
    by (simp add: tie_store_eval map_values_def by_publishedAt_def blog_with_id_def
        demo_blog_def)
  have h1: "q_offset ?q1 = Truthy NaN" by simp
  have h2: "q_limit ?q2 = Truthy (Num (- 1))" "(- 1 :: int) < 0" "q_offset ?q2 = Falsy"
    by simp_all
  have r1: "get_blogs tie_store ?q1 = (200, BlogsJson [])"
    using get_blogs_unvalidated [of tie_store ?q1, THEN conjunct2, THEN conjunct2,
        THEN conjunct2, THEN conjunct2, THEN conjunct1, rule_format, of "[?a, ?b]"] s h1
    by blast
  have "get_blogs tie_store ?q2
      = (200, BlogsJson (take (length [?a, ?b] - nat (- (- 1))) [?a, ?b]))"
    using get_blogs_unvalidated [of tie_store ?q2, THEN conjunct2, THEN conjunct2,
        THEN conjunct2, THEN conjunct2, THEN conjunct2, rule_format, of "[?a, ?b]" "- 1"]
      s h2
    by blast
  then have r2: "get_blogs tie_store ?q2 = (200, BlogsJson [?a])" by simp
  from s h1 h2 r1 r2 show ?thesis by (intro conjI)
qed

text \<open>
  C8 as stated fails: a request with limit \<^verbatim>\<open>-1\<close> is answered 200 with all posts but
  the last, and a request with offset \<^verbatim>\<open>abc\<close> (for which \<^verbatim>\<open>parseInt\<close> gives
  \<^verbatim>\<open>NaN\<close>) is answered 200 with the empty list; neither is rejected, and the listing is
  called with \<open>-1\<close> and with \<^verbatim>\<open>NaN\<close>.
\<close>

theorem get_blogs_negative_counterexample:
  "query_number (q_limit \<lparr>q_limit = Truthy (Num (- 1)), q_offset = Falsy\<rparr>) 10 = Num (- 1) \<and>
   get_blogs tie_store \<lparr>q_limit = Truthy (Num (- 1)), q_offset = Falsy\<rparr>
     = (200, BlogsJson [blog_with_id (demo_blog 1 ''a'' 5) 1]) \<and>
   query_number (q_offset \<lparr>q_limit = Falsy, q_offset = Truthy NaN\<rparr>) 0 = NaN \<and>
   get_blogs tie_store \<lparr>q_limit = Falsy, q_offset = Truthy NaN\<rparr> = (200, BlogsJson [])"
  by (simp add: get_blogs_def query_number_def tie_store_eval getBlogs_def js_slice_def
      map_values_def by_publishedAt_def blog_with_id_def demo_blog_def Let_def)

section \<open>Uniqueness and idempotency checks\<close>

text \<open>
  The three pre-insert lookups of the routes: a request whose lookup finds a record is
  answered 409 and leaves the store as it is.
\<close>

lemma post_users_username_conflict:
  "getUserByUsername st (iu_username u) = Some e \<Longrightarrow>
   post_users st (Parsed u) = ((409, Message ''Username already exists''), st)"
  by (simp add: post_users_def)

lemma post_likes_conflict:
  "getLike st (Num (il_userId d)) (Num (il_blogId d)) = Some l \<Longrightarrow>
   post_likes st (Parsed d) = ((409, Message ''Like already exists''), st)"
  by (simp add: post_likes_def)

lemma post_followers_conflict:
  "getFollower st (Num (if_followerId d)) (Num (if_followingId d)) = Some f \<Longrightarrow>
   post_followers st (Parsed d) = ((409, Message ''Already following this user''), st)"
  by (simp add: post_followers_def)

text \<open>
  C1. \<^verbatim>\<open>POST /api/users\<close> looks up the username only. The schema declares
  \<^verbatim>\<open>uid\<close> and \<^verbatim>\<open>email\<close> unique as well, but a request that repeats the
  external-identity id and the email of a stored user under a new username is answered
  201 and a second user with that id and email is stored.
\<close>

theorem post_users_duplicate_email_uid_inserted:
  "getUserByUid demo_store ''u-1''
     = Some (user_with_id (demo_user ''u-1'' ''alice'' ''alice@example.org'') 1) \<and>
   user_email (user_with_id (demo_user ''u-1'' ''alice'' ''alice@example.org'') 1)
     = ''alice@example.org'' \<and>
   fst (post_users demo_store (Parsed (demo_user ''u-1'' ''alice2'' ''alice@example.org'')))
     = (201, UserJson (user_with_id (demo_user ''u-1'' ''alice2'' ''alice@example.org'') 2)) \<and>
   users (snd (post_users demo_store (Parsed (demo_user ''u-1'' ''alice2'' ''alice@example.org''))))
     = [(1, user_with_id (demo_user ''u-1'' ''alice'' ''alice@example.org'') 1),
        (2, user_with_id (demo_user ''u-1'' ''alice2'' ''alice@example.org'') 2)]"
  by (simp add: demo_store_eval post_users_def getUserByUid_def getUserByUsername_def
      createUser_def map_values_def user_with_id_def demo_user_def Let_def)

lemma like_ids_below:
  assumes "store_inv st"
  shows "list_all (\<lambda>x. like_id x \<noteq> likeId st) (map_values (likes st))"
proof -
  from assms have "\<forall>p \<in> set (likes st). like_id (snd p) = fst p \<and> fst p < likeId st"
    by (auto simp: store_inv_def keys_wf_def list_all_iff)
  then show ?thesis by (auto simp: list_all_iff map_values_def)
qed

lemma follower_ids_below:
  assumes "store_inv st"
  shows "list_all (\<lambda>x. follower_id x \<noteq> followerId st) (map_values (followers st))"
proof -
  from assms
  have "\<forall>p \<in> set (followers st). follower_id (snd p) = fst p \<and> fst p < followerId st"
    by (auto simp: store_inv_def keys_wf_def list_all_iff)
  then show ?thesis by (auto simp: list_all_iff map_values_def)
qed

text \<open>
  C10. The create operations of the store check nothing. In a store reached by any
  sequence of operations from a new store: if a user with the username of the input
  exists, \<^verbatim>\<open>createUser\<close> still returns the input with the counter's value as
  identity, under a key the map did not have, and appends it, so that one more user
  carries that username; the same holds for \<^verbatim>\<open>createLike\<close> and
  \<^verbatim>\<open>createFollower\<close> with a pair that already has a record (there no stored record
  has the new identity either). The route in front of each create answers the same
  input with 409 and leaves the store unchanged: the checks live in the routes.
\<close>

theorem store_creates_unchecked:
  "(\<forall>e. getUserByUsername (exec_all MemStorage_new ops) (iu_username u) = Some e \<longrightarrow>
      (let st = exec_all MemStorage_new ops; (r, st') = createUser st u
       in user_id r = userId st \<and> userId st \<notin> set (map fst (users st)) \<and>
          user_without_id r = u \<and> users st' = users st @ [(userId st, r)] \<and>
          length (filter (\<lambda>x. user_username x = iu_username u) (map_values (users st')))
            = Suc (length (filter (\<lambda>x. user_username x = iu_username u)
                             (map_values (users st)))) \<and>
          post_users st (Parsed u) = ((409, Message ''Username already exists''), st))) \<and>
   (\<forall>e. getLike (exec_all MemStorage_new ops) (Num (il_userId l)) (Num (il_blogId l)) = Some e \<longrightarrow>
      (let st = exec_all MemStorage_new ops; (r, st') = createLike st l
       in like_id r = likeId st \<and> likeId st \<notin> set (map fst (likes st)) \<and>
          list_all (\<lambda>x. like_id x \<noteq> likeId st) (map_values (likes st)) \<and>
          like_without_id r = l \<and> likes st' = likes st @ [(likeId st, r)] \<and>
          length (filter (\<lambda>x. like_without_id x = l) (map_values (likes st')))
            = Suc (length (filter (\<lambda>x. like_without_id x = l) (map_values (likes st)))) \<and>
          post_likes st (Parsed l) = ((409, Message ''Like already exists''), st))) \<and>
   (\<forall>e. getFollower (exec_all MemStorage_new ops) (Num (if_followerId f))
           (Num (if_followingId f)) = Some e \<longrightarrow>
      (let st = exec_all MemStorage_new ops; (r, st') = createFollower st f
       in follower_id r = followerId st \<and> followerId st \<notin> set (map fst (followers st)) \<and>
          list_all (\<lambda>x. follower_id x \<noteq> followerId st) (map_values (followers st)) \<and>
          follower_without_id r = f \<and> followers st' = followers st @ [(followerId st, r)] \<and>
          length (filter (\<lambda>x. follower_without_id x = f) (map_values (followers st')))
            = Suc (length (filter (\<lambda>x. follower_without_id x = f)
                             (map_values (followers st)))) \<and>
          post_followers st (Parsed f)
            = ((409, Message ''Already following this user''), st)))"
proof -
  let ?st = "exec_all MemStorage_new ops"
  have inv: "store_inv ?st" by (rule store_inv_reachable)
  note fresh = store_inv_fresh [OF inv]
  have nu: "user_username (user_with_id u k) = iu_username u" for k
    by (simp add: user_with_id_def)
  have U: "\<forall>e. getUserByUsername ?st (iu_username u) = Some e \<longrightarrow>
      (let st = ?st; (r, st') = createUser st u
       in user_id r = userId st \<and> userId st \<notin> set (map fst (users st)) \<and>
          user_without_id r = u \<and> users st' = users st @ [(userId st, r)] \<and>
          length (filter (\<lambda>x. user_username x = iu_username u) (map_values (users st')))
            = Suc (length (filter (\<lambda>x. user_username x = iu_username u)
                             (map_values (users st)))) \<and>
          post_users st (Parsed u) = ((409, Message ''Username already exists''), st))"
    using fresh(1)
    by (simp add: createUser_adds [OF inv] with_id_id without_id_with_id map_values_def nu
        post_users_username_conflict)
  have L: "\<forall>e. getLike ?st (Num (il_userId l)) (Num (il_blogId l)) = Some e \<longrightarrow>
      (let st = ?st; (r, st') = createLike st l
       in like_id r = likeId st \<and> likeId st \<notin> set (map fst (likes st)) \<and>
          list_all (\<lambda>x. like_id x \<noteq> likeId st) (map_values (likes st)) \<and>
          like_without_id r = l \<and> likes st' = likes st @ [(likeId st, r)] \<and>
          length (filter (\<lambda>x. like_without_id x = l) (map_values (likes st')))
            = Suc (length (filter (\<lambda>x. like_without_id x = l) (map_values (likes st)))) \<and>
          post_likes st (Parsed l) = ((409, Message ''Like already exists''), st))"
    using fresh(3) like_ids_below [OF inv]
    by (simp add: createLike_adds [OF inv] with_id_id without_id_with_id map_values_def
        post_likes_conflict)
  have F: "\<forall>e. getFollower ?st (Num (if_followerId f)) (Num (if_followingId f)) = Some e \<longrightarrow>
      (let st = ?st; (r, st') = createFollower st f
       in follower_id r = followerId st \<and> followerId st \<notin> set (map fst (followers st)) \<and>
          list_all (\<lambda>x. follower_id x \<noteq> followerId st) (map_values (followers st)) \<and>
          follower_without_id r = f \<and> followers st' = followers st @ [(followerId st, r)] \<and>
          length (filter (\<lambda>x. follower_without_id x = f) (map_values (followers st')))
            = Suc (length (filter (\<lambda>x. follower_without_id x = f)
                             (map_values (followers st)))) \<and>
          post_followers st (Parsed f)
            = ((409, Message ''Already following this user''), st))"
    using fresh(4) follower_ids_below [OF inv]
    by (simp add: createFollower_adds [OF inv] with_id_id without_id_with_id map_values_def
        post_followers_conflict)
  show ?thesis by (rule conjI [OF U conjI [OF L F]])
qed


theorem store_creates_unchecked_witness:
  "getUserByUsername demo_store (iu_username (demo_user ''u-2'' ''alice'' ''other@example.org''))
     = Some (user_with_id (demo_user ''u-1'' ''alice'' ''alice@example.org'') 1) \<and>
   getLike demo_store (Num (il_userId \<lparr>il_userId = 1, il_blogId = 1\<rparr>))
       (Num (il_blogId \<lparr>il_userId = 1, il_blogId = 1\<rparr>))
     = Some \<lparr>like_id = 1, like_userId = 1, like_blogId = 1\<rparr> \<and>
   getFollower demo_store (Num (if_followerId \<lparr>if_followerId = 1, if_followingId = 2\<rparr>))
       (Num (if_followingId \<lparr>if_followerId = 1, if_followingId = 2\<rparr>))
     = Some \<lparr>follower_id = 1, follower_followerId = 1, follower_followingId = 2\<rparr> \<and>
   user_id (fst (createUser demo_store (demo_user ''u-2'' ''alice'' ''other@example.org''))) = 2 \<and>
   length (filter (\<lambda>x. user_username x = ''alice'')
       (map_values (users (snd (createUser demo_store
          (demo_user ''u-2'' ''alice'' ''other@example.org'')))))) = 2 \<and>
   like_id (fst (createLike demo_store \<lparr>il_userId = 1, il_blogId = 1\<rparr>)) = 2 \<and>
   length (filter (\<lambda>x. like_without_id x = \<lparr>il_userId = 1, il_blogId = 1\<rparr>)
       (map_values (likes (snd (createLike demo_store \<lparr>il_userId = 1, il_blogId = 1\<rparr>))))) = 2 \<and>
   follower_id (fst (createFollower demo_store \<lparr>if_followerId = 1, if_followingId = 2\<rparr>)) = 2 \<and>
   length (filter (\<lambda>x. follower_without_id x = \<lparr>if_followerId = 1, if_followingId = 2\<rparr>)
       (map_values (followers (snd (createFollower demo_store
          \<lparr>if_followerId = 1, if_followingId = 2\<rparr>))))) = 2"
proof -
  let ?u = "demo_user ''u-2'' ''alice'' ''other@example.org''"
  let ?l = "\<lparr>il_userId = 1, il_blogId = 1\<rparr>"
  let ?f = "\<lparr>if_followerId = 1, if_followingId = 2\<rparr>"
  note t = store_creates_unchecked [of demo_ops ?u ?l ?f, folded demo_store_def]
  have hu: "getUserByUsername demo_store (iu_username ?u)
      = Some (user_with_id (demo_user ''u-1'' ''alice'' ''alice@example.org'') 1)"
    by (simp add: demo_store_eval getUserByUsername_def map_values_def user_with_id_def
        demo_user_def)
  have hl: "getLike demo_store (Num (il_userId ?l)) (Num (il_blogId ?l))
      = Some \<lparr>like_id = 1, like_userId = 1, like_blogId = 1\<rparr>"
    by (simp add: demo_store_eval getLike_def map_values_def)
  have hf: "getFollower demo_store (Num (if_followerId ?f)) (Num (if_followingId ?f))
      = Some \<lparr>follower_id = 1, follower_followerId = 1, follower_followingId = 2\<rparr>"
    by (simp add: demo_store_eval getFollower_def map_values_def)
  have cu: "length (filter (\<lambda>x. user_username x = iu_username ?u)
      (map_values (users demo_store))) = 1" "userId demo_store = 2"
    "iu_username ?u = ''alice''"
    by (simp_all add: demo_store_eval map_values_def user_with_id_def demo_user_def)
  have cl: "length (filter (\<lambda>x. like_without_id x = ?l) (map_values (likes demo_store))) = 1"
    "likeId demo_store = 2"
    by (simp_all add: demo_store_eval map_values_def like_without_id_def)
  have cf: "length (filter (\<lambda>x. follower_without_id x = ?f)
      (map_values (followers demo_store))) = 1" "followerId demo_store = 2"
    by (simp_all add: demo_store_eval map_values_def follower_without_id_def)
  note tu = t [THEN conjunct1, rule_format, OF hu, unfolded Let_def split_beta]
  note tl = t [THEN conjunct2, THEN conjunct1, rule_format, OF hl, unfolded Let_def split_beta]
  note tf = t [THEN conjunct2, THEN conjunct2, rule_format, OF hf, unfolded Let_def split_beta]
  have ru: "user_id (fst (createUser demo_store ?u)) = 2"
    "length (filter (\<lambda>x. user_username x = ''alice'')
        (map_values (users (snd (createUser demo_store ?u))))) = 2"
    using tu [THEN conjunct1]
      tu [THEN conjunct2, THEN conjunct2, THEN conjunct2, THEN conjunct2, THEN conjunct1] cu
    by simp_all
  have rl: "like_id (fst (createLike demo_store ?l)) = 2"
    "length (filter (\<lambda>x. like_without_id x = ?l)
        (map_values (likes (snd (createLike demo_store ?l))))) = 2"
    using tl [THEN conjunct1]
      tl [THEN conjunct2, THEN conjunct2, THEN conjunct2, THEN conjunct2, THEN conjunct2,
        THEN conjunct1] cl
    by simp_all
  have rf: "follower_id (fst (createFollower demo_store ?f)) = 2"
    "length (filter (\<lambda>x. follower_without_id x = ?f)
        (map_values (followers (snd (createFollower demo_store ?f))))) = 2"
    using tf [THEN conjunct1]
      tf [THEN conjunct2, THEN conjunct2, THEN conjunct2, THEN conjunct2, THEN conjunct2,
        THEN conjunct1] cf
    by simp_all
  from hu hl hf ru rl rf show ?thesis by (intro conjI)
qed

section \<open>Likes and follows through the routes\<close>

lemma serve_storage_call:
  "snd (serve st r) = (case storage_call st r of None \<Rightarrow> st | Some x \<Rightarrow> exec st x)"
proof (cases r)
  case (POST_users b)
  then show ?thesis by (cases b) (auto simp: post_users_def split_beta split: option.splits)
next
  case (PUT_users i p)
  then show ?thesis by (auto simp: put_users_def split: sum.splits)
next
  case (GET_blogs q)
  then show ?thesis by simp
next
  case (POST_blogs b)
  then show ?thesis by (cases b) (auto simp: post_blogs_def split_beta)
next
  case (PUT_blogs i p)
  then show ?thesis by (auto simp: put_blogs_def split: sum.splits)
next
  case (DELETE_blogs i)
  then show ?thesis by (auto simp: delete_blogs_def split_beta)
next
  case (POST_likes b)
  then show ?thesis by (cases b) (auto simp: post_likes_def split_beta split: option.splits)
next
  case (DELETE_likes i)
  then show ?thesis by (auto simp: delete_likes_def split_beta)
next
  case (POST_followers b)
  then show ?thesis
    by (cases b) (auto simp: post_followers_def split_beta split: option.splits)
next
  case (DELETE_followers i)
  then show ?thesis by (auto simp: delete_followers_def split_beta)
next
  case (POST_comments b)
  then show ?thesis by (cases b) (auto simp: post_comments_def split_beta)
next
  case (PUT_comments i p)
  then show ?thesis by (auto simp: put_comments_def split: sum.splits)
next
  case (DELETE_comments i)
  then show ?thesis by (auto simp: delete_comments_def split_beta)
qed

lemma store_inv_serve: "store_inv st \<Longrightarrow> store_inv (snd (serve st r))"
  by (simp add: serve_storage_call store_inv_exec split: option.splits)

lemma getLike_None_iff:
  "getLike st (Num u) (Num b) = None \<longleftrightarrow> (u, b) \<notin> set (like_pairs st)"
  by (auto simp: getLike_def like_pairs_def find_None_iff)

lemma getFollower_None_iff:
  "getFollower st (Num u) (Num b) = None \<longleftrightarrow> (u, b) \<notin> set (follower_pairs st)"
  by (auto simp: getFollower_def follower_pairs_def find_None_iff)

lemma like_pairs_exec:
  assumes "store_inv st" and "distinct (like_pairs st)"
    and "\<forall>l. x = CreateLike l \<longrightarrow> (il_userId l, il_blogId l) \<notin> set (like_pairs st)"
  shows "distinct (like_pairs (exec st x))"
proof (cases x)
  case (CreateLike l)
  with assms show ?thesis
    by (simp add: createLike_adds like_pairs_def map_values_def like_with_id_def)
next
  case (DeleteLike k)
  with assms(2) show ?thesis
    by (cases k)
      (simp_all add: deleteLike_conv like_pairs_def map_values_def distinct_map_filter)
qed (use assms(2) in \<open>simp_all add: store_op_convs like_pairs_def Let_def split: option.splits\<close>)

lemma follower_pairs_exec:
  assumes "store_inv st" and "distinct (follower_pairs st)"
    and "\<forall>f. x = CreateFollower f \<longrightarrow>
           (if_followerId f, if_followingId f) \<notin> set (follower_pairs st)"
  shows "distinct (follower_pairs (exec st x))"
proof (cases x)
  case (CreateFollower f)
  with assms show ?thesis
    by (simp add: createFollower_adds follower_pairs_def map_values_def follower_with_id_def)
next
  case (DeleteFollower k)
  with assms(2) show ?thesis
    by (cases k)
      (simp_all add: deleteFollower_conv follower_pairs_def map_values_def
        distinct_map_filter)
qed (use assms(2) in
    \<open>simp_all add: store_op_convs follower_pairs_def Let_def split: option.splits\<close>)

lemma storage_call_CreateLike:
  "storage_call st r = Some (CreateLike l) \<Longrightarrow>
   (il_userId l, il_blogId l) \<notin> set (like_pairs st)"
  by (induction st r rule: storage_call.induct)
    (auto simp: getLike_None_iff split: if_splits)

lemma storage_call_CreateFollower:
  "storage_call st r = Some (CreateFollower f) \<Longrightarrow>
   (if_followerId f, if_followingId f) \<notin> set (follower_pairs st)"
  by (induction st r rule: storage_call.induct)
    (auto simp: getFollower_None_iff split: if_splits)

lemma api_inv_serve: "api_inv st \<Longrightarrow> api_inv (snd (serve st r))"
  unfolding api_inv_def
  using storage_call_CreateLike [of st r] storage_call_CreateFollower [of st r]
  by (auto simp: serve_storage_call store_inv_exec like_pairs_exec follower_pairs_exec
      split: option.splits)

lemma api_inv_serve_all: "api_inv st \<Longrightarrow> api_inv (serve_all st rs)"
  by (induction rs arbitrary: st) (simp_all add: api_inv_serve)

lemma api_inv_new: "api_inv MemStorage_new"
  using store_inv_new
  by (simp add: api_inv_def like_pairs_def follower_pairs_def map_values_def MemStorage_new_def)

lemma api_inv_reachable: "api_inv (serve_all MemStorage_new rs)"
  by (simp add: api_inv_serve_all api_inv_new)


lemma find_append_last: "find P xs = None \<Longrightarrow> P x \<Longrightarrow> find P (xs @ [x]) = Some x"
  by (induction xs) (auto split: if_splits)

lemma pair_gone_after_delete:
  assumes d: "distinct (map (g \<circ> snd) m)" and e: "(k, v) \<in> set m"
  shows "g v \<notin> set (map (g \<circ> snd) (filter (\<lambda>p. fst p \<noteq> k) m))"
proof
  assume "g v \<in> set (map (g \<circ> snd) (filter (\<lambda>p. fst p \<noteq> k) m))"
  then obtain p where p: "p \<in> set m" "fst p \<noteq> k" "g (snd p) = g v" by auto
  from d have "inj_on (g \<circ> snd) (set m)" by (simp add: distinct_map)
  moreover have "(g \<circ> snd) p = (g \<circ> snd) (k, v)" using p(3) by simp
  ultimately have "p = (k, v)" using p(1) e by (rule inj_onD)
  with p(2) show False by simp
qed

lemma like_recreate:
  assumes inv: "api_inv s"
    and g: "getLike s (Num (il_userId d)) (Num (il_blogId d)) = Some l"
  shows "\<exists>s1. delete_likes s (Num (like_id l)) = ((200, Success), s1) \<and>
           getLike s1 (Num (il_userId d)) (Num (il_blogId d)) = None \<and>
           post_likes s1 (Parsed d)
             = ((201, LikeJson (like_with_id d (likeId s))), snd (createLike s1 d)) \<and>
           getLike (snd (createLike s1 d)) (Num (il_userId d)) (Num (il_blogId d))
             = Some (like_with_id d (likeId s))"
proof -
  let ?s1 = "snd (deleteLike s (Num (like_id l)))"
  from inv have sinv: "store_inv s" and dl: "distinct (like_pairs s)"
    by (simp_all add: api_inv_def)
  from g have l: "l \<in> set (map_values (likes s))" "like_userId l = il_userId d"
    "like_blogId l = il_blogId d"
    by (auto simp: getLike_def find_Some_iff in_set_conv_nth)
  from l(1) obtain k where k: "(k, l) \<in> set (likes s)" by (auto simp: map_values_def)
  with sinv have "like_id l = k" by (auto simp: store_inv_def list_all_iff)
  with k have e: "(like_id l, l) \<in> set (likes s)" by simp
  from sinv have "distinct (map fst (likes s))" by (simp add: store_inv_def keys_wf_def)
  with e have m: "map_of (likes s) (like_id l) = Some l" by simp
  have del: "delete_likes s (Num (like_id l)) = ((200, Success), ?s1)"
    using m by (simp add: delete_likes_def deleteLike_conv)
  have s1: "?s1 = exec s (DeleteLike (Num (like_id l)))" by simp
  have inv1: "store_inv ?s1" unfolding s1 using sinv by (rule store_inv_exec)
  have c1: "likeId ?s1 = likeId s" by (simp add: deleteLike_conv)
  from dl have "distinct (map ((\<lambda>l. (like_userId l, like_blogId l)) \<circ> snd) (likes s))"
    by (simp add: like_pairs_def map_values_def)
  from pair_gone_after_delete [OF this e]
  have "(il_userId d, il_blogId d) \<notin> set (like_pairs ?s1)"
    using l(2,3) by (simp add: like_pairs_def map_values_def deleteLike_conv)
  then have none: "getLike ?s1 (Num (il_userId d)) (Num (il_blogId d)) = None"
    by (simp add: getLike_None_iff)
  then have post: "post_likes ?s1 (Parsed d)
      = ((201, LikeJson (like_with_id d (likeId s))), snd (createLike ?s1 d))"
    by (simp add: post_likes_def split_beta createLike_adds [OF inv1] c1)
  have found: "getLike (snd (createLike ?s1 d)) (Num (il_userId d)) (Num (il_blogId d))
      = Some (like_with_id d (likeId s))"
    using none
    by (simp add: createLike_adds [OF inv1] c1 getLike_def map_values_def find_append_last
        like_with_id_def)
  from del none post found show ?thesis by blast
qed

text \<open>
  C2. In every store, a \<^verbatim>\<open>POST /api/likes\<close> whose (user, post) pair already has a
  like, and a \<^verbatim>\<open>POST /api/followers\<close> whose (follower, followee) pair already has
  a follow, is answered 409 after the lookup and the store is left as it is: nothing is
  inserted. In a store reached through the routes from a new store, deleting the like
  that the lookup finds (by its identity) is answered 200, the pair then has no like,
  and posting the like again is answered 201 with a like that carries the next identity
  and is found by the lookup afterwards.
\<close>

theorem relation_conflict:
  "(\<forall>l. getLike st (Num (il_userId d)) (Num (il_blogId d)) = Some l \<longrightarrow>
      post_likes st (Parsed d) = ((409, Message ''Like already exists''), st)) \<and>
   (\<forall>f. getFollower st (Num (if_followerId e)) (Num (if_followingId e)) = Some f \<longrightarrow>
      post_followers st (Parsed e) = ((409, Message ''Already following this user''), st)) \<and>
   (\<forall>rs l. getLike (serve_all MemStorage_new rs) (Num (il_userId d)) (Num (il_blogId d))
        = Some l \<longrightarrow>
      (\<exists>s1. delete_likes (serve_all MemStorage_new rs) (Num (like_id l))
           = ((200, Success), s1) \<and>
         getLike s1 (Num (il_userId d)) (Num (il_blogId d)) = None \<and>
         post_likes s1 (Parsed d)
           = ((201, LikeJson (like_with_id d (likeId (serve_all MemStorage_new rs)))),
              snd (createLike s1 d)) \<and>
         getLike (snd (createLike s1 d)) (Num (il_userId d)) (Num (il_blogId d))
           = Some (like_with_id d (likeId (serve_all MemStorage_new rs)))))"
  using post_likes_conflict [of st d] post_followers_conflict [of st e]
    like_recreate [OF api_inv_reachable, of _ d]
  by blast


lemma liked_store_eval:
  "liked_store =
     \<lparr>users = [], blogs = [],
      likes = [(1, \<lparr>like_id = 1, like_userId = 1, like_blogId = 1\<rparr>)],
      followers = [], comments = [],
      userId = 1, blogId = 1, likeId = 2, followerId = 1, commentId = 1\<rparr>"
  by (simp add: liked_store_def MemStorage_new_def post_likes_def getLike_def map_values_def
      createLike_def like_with_id_def Let_def)

theorem relation_conflict_witness:
  "getLike liked_store (Num (il_userId \<lparr>il_userId = 1, il_blogId = 1\<rparr>))
       (Num (il_blogId \<lparr>il_userId = 1, il_blogId = 1\<rparr>))
     = Some \<lparr>like_id = 1, like_userId = 1, like_blogId = 1\<rparr> \<and>
   getFollower demo_store (Num (if_followerId \<lparr>if_followerId = 1, if_followingId = 2\<rparr>))
       (Num (if_followingId \<lparr>if_followerId = 1, if_followingId = 2\<rparr>))
     = Some \<lparr>follower_id = 1, follower_followerId = 1, follower_followingId = 2\<rparr> \<and>
   post_likes liked_store (Parsed \<lparr>il_userId = 1, il_blogId = 1\<rparr>)
     = ((409, Message ''Like already exists''), liked_store) \<and>
   post_followers demo_store (Parsed \<lparr>if_followerId = 1, if_followingId = 2\<rparr>)
     = ((409, Message ''Already following this user''), demo_store) \<and>
   (\<exists>s1. delete_likes liked_store (Num 1) = ((200, Success), s1) \<and>
      post_likes s1 (Parsed \<lparr>il_userId = 1, il_blogId = 1\<rparr>)
        = ((201, LikeJson \<lparr>like_id = 2, like_userId = 1, like_blogId = 1\<rparr>),
           snd (createLike s1 \<lparr>il_userId = 1, il_blogId = 1\<rparr>)))"
proof -
  let ?d = "\<lparr>il_userId = 1, il_blogId = 1\<rparr>"
  let ?e = "\<lparr>if_followerId = 1, if_followingId = 2\<rparr>"
  let ?l = "\<lparr>like_id = 1, like_userId = 1, like_blogId = 1\<rparr>"
  have hl: "getLike liked_store (Num (il_userId ?d)) (Num (il_blogId ?d)) = Some ?l"
    by (simp add: liked_store_eval getLike_def map_values_def)
  have hf: "getFollower demo_store (Num (if_followerId ?e)) (Num (if_followingId ?e))
      = Some \<lparr>follower_id = 1, follower_followerId = 1, follower_followingId = 2\<rparr>"
    by (simp add: demo_store_eval getFollower_def map_values_def)
  note a = relation_conflict [of liked_store ?d ?e, THEN conjunct1, rule_format, OF hl]
  note b = relation_conflict [of demo_store ?d ?e, THEN conjunct2, THEN conjunct1,
      rule_format, OF hf]
  note c = relation_conflict [of liked_store ?d ?e, THEN conjunct2, THEN conjunct2,
      rule_format, of "[POST_likes (Parsed \<lparr>il_userId = 1, il_blogId = 1\<rparr>)]" ?l,
      folded liked_store_def, OF hl]
  have n: "likeId liked_store = 2" "like_id ?l = 1" by (simp_all add: liked_store_eval)
  from c obtain s1 where s1: "delete_likes liked_store (Num (like_id ?l)) = ((200, Success), s1)"
    "post_likes s1 (Parsed ?d)
       = ((201, LikeJson (like_with_id ?d (likeId liked_store))), snd (createLike s1 ?d))"
    by blast
  from s1 have "delete_likes liked_store (Num 1) = ((200, Success), s1) \<and>
      post_likes s1 (Parsed ?d)
      = ((201, LikeJson \<lparr>like_id = 2, like_userId = 1, like_blogId = 1\<rparr>),
         snd (createLike s1 ?d))"
    by (simp add: n like_with_id_def)
  then have r: "\<exists>s1. delete_likes liked_store (Num 1) = ((200, Success), s1) \<and>
      post_likes s1 (Parsed ?d)
        = ((201, LikeJson \<lparr>like_id = 2, like_userId = 1, like_blogId = 1\<rparr>),
           snd (createLike s1 ?d))"
    by blast
  from hl hf a b r show ?thesis by (intro conjI)
qed

end
